theory Spec2Isabelle
  imports Complex_Main "HOL-Library.Product_Lexorder"
begin

section \<open>The synchronization protocol (protocol module of the management controller)\<close>

subsection \<open>JavaScript values\<close>

text \<open>
  The protocol functions are untyped: every argument and every property of a message is
  an arbitrary JavaScript value. Primitive values are modelled as they are; objects
  (hash sets, arrays, anything else with identity) are opaque values of a type \<open>'o\<close>.
  A Number is a finite value (a \<open>rat\<close>: every finite double is one), \<open>NaN\<close>, or an
  infinity with its sign.
\<close>

datatype 'o jsval =
    JUndefined
  | JNull
  | JBool bool
  | JNum rat
  | JNaN
  | JInfinity bool
  | JStr string
  | JObj 'o

text \<open>
  The two conversions of the language that the loose comparison \<open>!=\<close> needs on values
  that are not numbers already. \<open>StringToNumber\<close> is the runtime's reading of a string as
  a numeric literal (the language leaves the rounding of long literals to the
  implementation), \<open>ToPrimitive\<close> the primitive value of an object, or \<open>None\<close> when
  the object has none (neither its \<open>valueOf\<close> nor its \<open>toString\<close> yields a primitive):
  the conversion then throws a \<open>TypeError\<close>. Both are taken as parameters.
\<close>

record 'o runtime =
  StringToNumber :: "string \<Rightarrow> 'o jsval"
  ToPrimitive :: "'o \<Rightarrow> 'o jsval option"

text \<open>
  \<open>x == n\<close> for a primitive \<open>x\<close> and a finite Number \<open>n\<close>: a Number is compared by
  value, a Boolean is converted (\<open>true\<close> to 1, \<open>false\<close> to 0), a String is converted by
  \<open>StringToNumber\<close>; \<open>undefined\<close>, \<open>null\<close>, \<open>NaN\<close> and the infinities equal no finite
  number.
\<close>

fun primitive_equals_number :: "(string \<Rightarrow> 'o jsval) \<Rightarrow> 'o jsval \<Rightarrow> rat \<Rightarrow> bool" where
  "primitive_equals_number conv (JNum x) n = (x = n)"
| "primitive_equals_number conv (JBool b) n = ((if b then 1 else 0) = n)"
| "primitive_equals_number conv (JStr s) n = (conv s = JNum n)"
| "primitive_equals_number conv _ n = False"

text \<open>
  \<open>x == n\<close> for any value: an object is compared through its primitive value, and
  the comparison throws a \<open>TypeError\<close> (the result \<open>None\<close>) when the object has none.
\<close>

definition loosely_equals_number :: "'o runtime \<Rightarrow> 'o jsval \<Rightarrow> rat \<Rightarrow> bool option" where
  "loosely_equals_number rt x n =
     (case x of
        JObj ob \<Rightarrow>
          (case ToPrimitive rt ob of
             None \<Rightarrow> None
           | Some p \<Rightarrow> Some (primitive_equals_number (StringToNumber rt) p n))
      | _ \<Rightarrow> Some (primitive_equals_number (StringToNumber rt) x n))"

subsection \<open>Messages\<close>

definition VERSION :: rat where "VERSION = 1"
definition OP_HEARTBEAT :: string where "OP_HEARTBEAT = ''HB''"
definition OP_GET :: string where "OP_GET = ''GET''"
definition OP_CLAIM :: string where "OP_CLAIM = ''CLAIM''"

text \<open>
  A message object, by the properties the module writes and reads. A property the
  object does not have reads as \<open>undefined\<close>.
\<close>

record 'o message =
  version :: "'o jsval"
  op :: "'o jsval"
  site :: "'o jsval"
  hashset :: "'o jsval"
  address :: "'o jsval"
  objectname :: "'o jsval"
  claim :: "'o jsval"
  name :: "'o jsval"

text \<open>
  \<open>Heartbeat(fromSite, hashSet, address="")\<close>: the default value of the third parameter
  replaces an argument that is \<open>undefined\<close> (left out or passed as such).
\<close>

definition Heartbeat :: "'o jsval \<Rightarrow> 'o jsval \<Rightarrow> 'o jsval \<Rightarrow> 'o message" where
  "Heartbeat fromSite hashSet address_arg =
     (let address = (if address_arg = JUndefined then JStr '''' else address_arg) in
      \<lparr> version = JNum VERSION, op = JStr OP_HEARTBEAT, site = fromSite, hashset = hashSet,
        address = address, objectname = JUndefined, claim = JUndefined, name = JUndefined \<rparr>)"

definition GetObject :: "'o jsval \<Rightarrow> 'o jsval \<Rightarrow> 'o message" where
  "GetObject fromSite objectName =
     \<lparr> version = JNum VERSION, op = JStr OP_GET, site = fromSite, hashset = JUndefined,
       address = JUndefined, objectname = objectName, claim = JUndefined, name = JUndefined \<rparr>"

definition AssertClaim :: "'o jsval \<Rightarrow> 'o jsval \<Rightarrow> 'o message" where
  "AssertClaim claimId name_arg =
     \<lparr> version = JNum VERSION, op = JStr OP_CLAIM, site = JUndefined, hashset = JUndefined,
       address = JUndefined, objectname = JUndefined, claim = claimId, name = name_arg \<rparr>"

subsection \<open>Dispatch\<close>

text \<open>
  What a call of \<open>DispatchMessage\<close> can throw: a \<open>TypeError\<close> when \<open>body\<close> is \<open>null\<close> or
  \<open>undefined\<close> (the property read fails) or when the comparison of \<open>body.version\<close>
  throws one, its own two errors, or whatever the handler it called threw.
\<close>

datatype ('o, 'x) dispatch_error =
    TypeError
  | UnsupportedProtocolVersion "'o jsval"
  | UnknownOpCode "'o jsval"
  | HandlerThrew 'x

text \<open>
  A handler is a function of the caller's: applied to its arguments it acts on the
  caller's state \<open>'w\<close> and returns, or throws some \<open>'x\<close>. Its return value is dropped.
\<close>

type_synonym ('w, 'x) effect = "'w \<Rightarrow> 'x option \<times> 'w"

definition invoke :: "('w, 'x) effect \<Rightarrow> 'w \<Rightarrow> ('o, 'x) dispatch_error option \<times> 'w" where
  "invoke h w = (case h w of (None, w') \<Rightarrow> (None, w') | (Some x, w') \<Rightarrow> (Some (HandlerThrew x), w'))"

text \<open>
  \<open>DispatchMessage(body, onHeartbeat, onSolicit, onGet, onClaim)\<close>. The result is the
  error thrown (\<open>None\<close> when the call returns) and the caller's state afterwards. The
  version test is the loose \<open>!=\<close>; the \<open>switch\<close> compares with the strict \<open>===\<close>, which
  only the string itself satisfies.
\<close>

definition DispatchMessage ::
  "'o runtime \<Rightarrow> 'o message option
     \<Rightarrow> ('o jsval \<Rightarrow> 'o jsval \<Rightarrow> 'o jsval \<Rightarrow> ('w, 'x) effect)
     \<Rightarrow> 's
     \<Rightarrow> ('o jsval \<Rightarrow> 'o jsval \<Rightarrow> ('w, 'x) effect)
     \<Rightarrow> ('o jsval \<Rightarrow> 'o jsval \<Rightarrow> ('w, 'x) effect)
     \<Rightarrow> 'w \<Rightarrow> ('o, 'x) dispatch_error option \<times> 'w" where
  "DispatchMessage rt body onHeartbeat onSolicit onGet onClaim w =
     (case body of
        None \<Rightarrow> (Some TypeError, w)
      | Some b \<Rightarrow>
          (case loosely_equals_number rt (version b) VERSION of
             None \<Rightarrow> (Some TypeError, w)
           | Some same \<Rightarrow>
               if \<not> same
               then (Some (UnsupportedProtocolVersion (version b)), w)
               else if op b = JStr OP_HEARTBEAT
               then invoke (onHeartbeat (site b) (hashset b) (address b)) w
               else if op b = JStr OP_GET then invoke (onGet (site b) (objectname b)) w
               else if op b = JStr OP_CLAIM then invoke (onClaim (claim b) (name b)) w
               else (Some (UnknownOpCode (op b)), w)))"

text \<open>
  Handlers that only record that they were called, and with what: the caller's state
  is the list of calls so far.
\<close>

datatype 'o call =
    OnHeartbeat "'o jsval" "'o jsval" "'o jsval"
  | OnSolicit
  | OnGet "'o jsval" "'o jsval"
  | OnClaim "'o jsval" "'o jsval"

definition rec_onHeartbeat :: "'o jsval \<Rightarrow> 'o jsval \<Rightarrow> 'o jsval \<Rightarrow> ('o call list, unit) effect" where
  "rec_onHeartbeat a b c w = (None, w @ [OnHeartbeat a b c])"

definition rec_onSolicit :: "('o call list, unit) effect" where
  "rec_onSolicit w = (None, w @ [OnSolicit])"

definition rec_onGet :: "'o jsval \<Rightarrow> 'o jsval \<Rightarrow> ('o call list, unit) effect" where
  "rec_onGet a b w = (None, w @ [OnGet a b])"

definition rec_onClaim :: "'o jsval \<Rightarrow> 'o jsval \<Rightarrow> ('o call list, unit) effect" where
  "rec_onClaim a b w = (None, w @ [OnClaim a b])"

text \<open>The calls a dispatch of \<open>body\<close> makes, and the error it ends with.\<close>

definition dispatch_calls :: "'o runtime \<Rightarrow> 'o message option \<Rightarrow> 'o call list" where
  "dispatch_calls rt body =
     snd (DispatchMessage rt body rec_onHeartbeat
            (rec_onSolicit :: ('o call list, unit) effect) rec_onGet rec_onClaim [])"

definition dispatch_error :: "'o runtime \<Rightarrow> 'o message option \<Rightarrow> ('o, unit) dispatch_error option" where
  "dispatch_error rt body =
     fst (DispatchMessage rt body rec_onHeartbeat
            (rec_onSolicit :: ('o call list, unit) effect) rec_onGet rec_onClaim [])"

text \<open>
  A runtime for evaluating concrete messages: it reads a string of decimal digits as
  the number it writes, and gives an object the primitive value \<open>"[object Object]"\<close>.
  The messages evaluated below hold no other string or object in \<open>version\<close>.
\<close>

fun digits_value :: "nat \<Rightarrow> string \<Rightarrow> nat option" where
  "digits_value acc [] = Some acc"
| "digits_value acc (c # cs) =
     (let d = (of_char c :: nat) in
      if 48 \<le> d \<and> d \<le> 57 then digits_value (10 * acc + (d - 48)) cs else None)"

definition decimal_runtime :: "unit runtime" where
  "decimal_runtime =
     \<lparr> StringToNumber = (\<lambda>s. case (if s = [] then None else digits_value 0 s) of
                                None \<Rightarrow> JNaN | Some n \<Rightarrow> JNum (of_nat n)),
       ToPrimitive = (\<lambda>_. Some (JStr ''[object Object]'')) \<rparr>"


section \<open>The topology store\<close>

subsection \<open>Rows and tables\<close>

text \<open>
  A row is a record of the columns the code reads and writes (the queries are the
  authority on the columns: they name \<open>OperStatus\<close> and \<open>Processing\<close>, which the schema
  file does not declare). A nullable column is an \<open>option\<close>, \<open>None\<close> for \<open>NULL\<close>. A
  timestamp is the number of milliseconds \<open>Date.getTime()\<close> returns (the rounding of a
  stored timestamp to the precision of its column is not modelled). An interval is a
  value of a type \<open>'iv\<close>: the code only hands it to \<open>db.IntervalMilliseconds\<close>, which is
  taken to return a whole number of milliseconds.
\<close>

type_synonym uuid = string
type_synonym timestamp = int

datatype CertificateRequestType = interiorRouter | vanCA | memberClaim | vanSite

record 'iv ApplicationNetwork =
  net_id :: uuid
  net_name :: "string option"
  net_certificateauthority :: "uuid option"
  net_starttime :: "timestamp option"
  net_endtime :: "timestamp option"
  net_deletedelay :: "'iv option"
  net_operstatus :: "string option"

record CertificateRequest =
  req_id :: uuid
  req_requesttype :: "CertificateRequestType option"
  req_createdtime :: "timestamp option"
  req_requesttime :: "timestamp option"
  req_expiretime :: "timestamp option"
  req_interiorrouter :: "string option"
  req_applicationnetwork :: "uuid option"
  req_invitation :: "uuid option"
  req_site :: "uuid option"
  req_processing :: "bool option"

record TlsCertificate =
  cert_id :: uuid
  cert_isca :: "bool option"
  cert_objectname :: "string option"
  cert_signedby :: "uuid option"
  cert_expiration :: "timestamp option"

record InteriorSite =
  site_id :: string
  site_certificate :: "uuid option"
  site_managementaccess :: "uuid option"
  site_memberaccess :: "uuid option"
  site_peeraccess :: "uuid option"

record BackboneAccessPoint =
  ap_id :: uuid
  ap_hostname :: "string option"
  ap_port :: "string option"
  ap_lifecycle :: "string option"

record MemberInvitation =
  inv_id :: uuid
  inv_name :: "string option"
  inv_lifecycle :: "string option"
  inv_failure :: "string option"
  inv_joindeadline :: "timestamp option"
  inv_instancelimit :: "int option"
  inv_instancecount :: "int option"

record 'iv database =
  ApplicationNetworks :: "'iv ApplicationNetwork list"
  CertificateRequests :: "CertificateRequest list"
  TlsCertificates :: "TlsCertificate list"
  InteriorSites :: "InteriorSite list"
  BackboneAccessPoints :: "BackboneAccessPoint list"
  MemberInvitations :: "MemberInvitation list"

subsection \<open>A pooled client and its transaction\<close>

text \<open>
  What a unit of work can throw, or be thrown at.
\<close>

datatype failure =
    QueryFailed
  | DuplicateKey
  | NullDereference
  | InvalidDate
  | InvalidIngressKey string
  | AlreadyHasHostname uuid
  | UnexpectedLifecycle uuid "string option"
  | AccessPointNotFound string

text \<open>
  The client \<open>db.ClientFromPool()\<close> hands out, with the store behind it. \<open>db.js\<close> and the
  database server are not part of the sources; the model is the transaction discipline
  of PostgreSQL that the code relies on: \<open>committed\<close> holds the rows as every client
  sees them, \<open>BEGIN\<close> opens a working copy, statements inside a transaction act on the
  working copy, \<open>COMMIT\<close> publishes it and \<open>ROLLBACK\<close> drops it; outside a transaction
  a statement acts on the committed rows. Any \<open>client.query\<close> may fail for reasons of
  the store's own (connection lost, server error): \<open>faults\<close> lists the queries of this
  client, counted from 0 by \<open>issued\<close>, that throw, so that every pattern of failures is
  some value of it. A failed query changes no row. \<open>leased\<close> says that the client is
  checked out of the pool.
\<close>

record 'iv conn =
  committed :: "'iv database"
  txn :: "'iv database option"
  issued :: nat
  faults :: "nat list"
  leased :: bool

definition ClientFromPool :: "'iv conn \<Rightarrow> 'iv conn" where
  "ClientFromPool c = c\<lparr>leased := True\<rparr>"

definition release :: "'iv conn \<Rightarrow> 'iv conn" where
  "release c = c\<lparr>leased := False\<rparr>"

definition visible :: "'iv conn \<Rightarrow> 'iv database" where
  "visible c = (case txn c of None \<Rightarrow> committed c | Some d \<Rightarrow> d)"

definition write_rows :: "'iv database \<Rightarrow> 'iv conn \<Rightarrow> 'iv conn" where
  "write_rows d c = (case txn c of None \<Rightarrow> c\<lparr>committed := d\<rparr> | Some _ \<Rightarrow> c\<lparr>txn := Some d\<rparr>)"

text \<open>
  An action runs on a state and either returns a value or throws; the state it leaves
  is kept in both cases (what was done before a throw stays done).
\<close>

type_synonym ('s, 'a) action = "'s \<Rightarrow> (failure + 'a) \<times> 's"

definition succeed :: "'a \<Rightarrow> ('s, 'a) action" where
  "succeed a s = (Inr a, s)"

definition throw :: "failure \<Rightarrow> ('s, 'a) action" where
  "throw e s = (Inl e, s)"

definition andThen :: "('s, 'a) action \<Rightarrow> ('a \<Rightarrow> ('s, 'b) action) \<Rightarrow> ('s, 'b) action" where
  "andThen m f s = (case m s of (Inl e, s') \<Rightarrow> (Inl e, s') | (Inr a, s') \<Rightarrow> f a s')"

text \<open>
  \<open>client.query(text, params)\<close> for a statement on the rows: the statement is a function
  of the rows the client sees, which fails (a constraint) or returns its result and the
  rows it leaves.
\<close>

definition client_query ::
  "('iv database \<Rightarrow> failure + 'r \<times> 'iv database) \<Rightarrow> ('iv conn, 'r) action" where
  "client_query stmt c =
     (let c' = c\<lparr>issued := Suc (issued c)\<rparr> in
      if issued c \<in> set (faults c) then (Inl QueryFailed, c')
      else case stmt (visible c) of
             Inl e \<Rightarrow> (Inl e, c')
           | Inr (r, d) \<Rightarrow> (Inr r, write_rows d c'))"

datatype transaction_command = BEGIN | COMMIT | ROLLBACK

text \<open>
  \<open>client.query('BEGIN')\<close>, \<open>'COMMIT'\<close> and \<open>'ROLLBACK'\<close>. A \<open>BEGIN\<close> inside a transaction
  and a \<open>COMMIT\<close> or \<open>ROLLBACK\<close> outside one change nothing (the server only warns).
\<close>

definition client_transaction :: "transaction_command \<Rightarrow> ('iv conn, unit) action" where
  "client_transaction cmd c =
     (let c' = c\<lparr>issued := Suc (issued c)\<rparr> in
      if issued c \<in> set (faults c) then (Inl QueryFailed, c')
      else case cmd of
             BEGIN \<Rightarrow> (Inr (), c'\<lparr>txn := Some (visible c)\<rparr>)
           | COMMIT \<Rightarrow> (Inr (), c'\<lparr>committed := visible c, txn := None\<rparr>)
           | ROLLBACK \<Rightarrow> (Inr (), c'\<lparr>txn := None\<rparr>))"

section \<open>The certificate module\<close>

text \<open>
  What the module takes from files that are not part of the sources:
  \<open>db.IntervalMilliseconds\<close>, \<open>config.DefaultCaExpiration()\<close>, and the value the live
  schema gives \<open>Processing\<close> in a row inserted without it.
\<close>

record 'iv environment =
  IntervalMilliseconds :: "'iv option \<Rightarrow> int"
  DefaultCaExpiration :: "'iv"
  ProcessingDefault :: "bool option"

subsection \<open>The statements of the two workers\<close>

text \<open>\<open>SELECT * FROM ApplicationNetworks WHERE OperStatus = 'new' LIMIT 1\<close>\<close>

definition select_new_network ::
  "'iv database \<Rightarrow> failure + 'iv ApplicationNetwork list \<times> 'iv database" where
  "select_new_network d =
     Inr (take 1 (filter (\<lambda>n. net_operstatus n = Some ''new'') (ApplicationNetworks d)), d)"

text \<open>
  \<open>INSERT INTO CertificateRequests(Id, RequestType, CreatedTime, RequestTime, ExpireTime,
  ApplicationNetwork) VALUES(gen_random_uuid(), 'vanCA', now(), $1, $2, $3)\<close>. The new
  identifier and the time of the transaction are arguments. The second parameter is
  the \<open>Date\<close> the code built, \<open>None\<close> when that \<open>Date\<close> is invalid: the text sent for an
  invalid \<open>Date\<close> is no timestamp, and the statement is refused. \<open>Id\<close> is the primary
  key: a second row with the same \<open>Id\<close> is refused.
\<close>

definition insert_certificate_request ::
  "'iv environment \<Rightarrow> uuid \<Rightarrow> timestamp \<Rightarrow> timestamp option \<Rightarrow> timestamp option \<Rightarrow> uuid
     \<Rightarrow> 'iv database \<Rightarrow> failure + unit \<times> 'iv database" where
  "insert_certificate_request env new_id now p1 p2 p3 d =
     (if p2 = None then Inl InvalidDate
      else if new_id \<in> req_id ` set (CertificateRequests d) then Inl DuplicateKey
      else Inr ((), d\<lparr>CertificateRequests := CertificateRequests d @
             [\<lparr> req_id = new_id, req_requesttype = Some vanCA, req_createdtime = Some now,
                req_requesttime = p1, req_expiretime = p2, req_interiorrouter = None,
                req_applicationnetwork = Some p3, req_invitation = None, req_site = None,
                req_processing = ProcessingDefault env \<rparr>]\<rparr>))"

text \<open>\<open>UPDATE ApplicationNetworks SET OperStatus = 'cert_request_created' WHERE Id = $1\<close>\<close>

definition update_network_status :: "uuid \<Rightarrow> 'iv database \<Rightarrow> failure + unit \<times> 'iv database" where
  "update_network_status p1 d =
     Inr ((), d\<lparr>ApplicationNetworks :=
        map (\<lambda>n. if net_id n = p1 then n\<lparr>net_operstatus := Some ''cert_request_created''\<rparr> else n)
          (ApplicationNetworks d)\<rparr>)"

text \<open>
  \<open>SELECT * FROM CertificateRequests WHERE RequestTime <= now() and not Processing ORDER
  BY CreatedTime LIMIT 1\<close>. A comparison with \<open>NULL\<close> is not true, so a row without a
  \<open>RequestTime\<close> or without a \<open>Processing\<close> value is not selected. An ascending order puts
  \<open>NULL\<close> last: the sort key is the pair of "is null" and the time. The server leaves the
  order of rows with equal keys open; the model keeps them in table order.
\<close>

definition eligible :: "timestamp \<Rightarrow> CertificateRequest \<Rightarrow> bool" where
  "eligible now r =
     ((case req_requesttime r of None \<Rightarrow> False | Some t \<Rightarrow> t \<le> now) \<and> req_processing r = Some False)"

definition created_key :: "CertificateRequest \<Rightarrow> bool \<times> timestamp" where
  "created_key r = (case req_createdtime r of None \<Rightarrow> (True, 0) | Some t \<Rightarrow> (False, t))"

definition select_certificate_request ::
  "timestamp \<Rightarrow> 'iv database \<Rightarrow> failure + CertificateRequest list \<times> 'iv database" where
  "select_certificate_request now d =
     Inr (take 1 (sort_key created_key (filter (eligible now) (CertificateRequests d))), d)"

text \<open>\<open>UPDATE CertificateRequests SET Processing = true WHERE Id = $1\<close>\<close>

definition update_request_processing :: "uuid \<Rightarrow> 'iv database \<Rightarrow> failure + unit \<times> 'iv database" where
  "update_request_processing p1 d =
     Inr ((), d\<lparr>CertificateRequests :=
        map (\<lambda>r. if req_id r = p1 then r\<lparr>req_processing := Some True\<rparr> else r)
          (CertificateRequests d)\<rparr>)"

subsection \<open>The workers\<close>

text \<open>
  The state of a pass inside its \<open>try\<close> block: the client and the local variable
  \<open>reschedule_delay\<close>.
\<close>

definition with_client :: "('iv conn, 'a) action \<Rightarrow> ('iv conn \<times> nat, 'a) action" where
  "with_client m s = (case m (fst s) of (r, c') \<Rightarrow> (r, (c', snd s)))"

definition set_reschedule_delay :: "nat \<Rightarrow> ('iv conn \<times> nat, unit) action" where
  "set_reschedule_delay n s = (Inr (), (fst s, n))"

text \<open>
  \<open>expire_time = new Date(); expire_time.setTime(t)\<close>: a time value beyond 8.64e15
  milliseconds on either side of the epoch makes the \<open>Date\<close> invalid (\<open>None\<close>); no
  error is thrown at this point.
\<close>

definition Date_setTime :: "int \<Rightarrow> timestamp option" where
  "Date_setTime t = (if \<bar>t\<bar> \<le> 8640000000000000 then Some t else None)"

text \<open>
  The expiration of the request: \<open>row.endtime\<close> is a \<open>Date\<close> (truthy) or \<open>null\<close>; without
  it the code calls \<open>row.starttime.getTime()\<close>, which throws a \<open>TypeError\<close> when
  \<open>starttime\<close> is \<open>null\<close>.
\<close>

definition expire_time_of ::
  "'iv environment \<Rightarrow> 'iv ApplicationNetwork \<Rightarrow> failure + timestamp option" where
  "expire_time_of env row =
     (case net_endtime row of
        Some endtime \<Rightarrow>
          Inr (Date_setTime (endtime + IntervalMilliseconds env (net_deletedelay row)))
      | None \<Rightarrow>
          (case net_starttime row of
             None \<Rightarrow> Inl NullDereference
           | Some starttime \<Rightarrow>
               Inr (Date_setTime
                      (starttime + IntervalMilliseconds env (Some (DefaultCaExpiration env))))))"

text \<open>The \<open>try\<close> block of \<open>processNewNetworks\<close>.\<close>

definition processNewNetworks_try ::
  "'iv environment \<Rightarrow> timestamp \<Rightarrow> uuid \<Rightarrow> ('iv conn \<times> nat, unit) action" where
  "processNewNetworks_try env now new_id =
     andThen (with_client (client_transaction BEGIN)) (\<lambda>_.
     andThen (with_client (client_query select_new_network)) (\<lambda>result.
     andThen
       (case result of
          [row] \<Rightarrow>
            andThen (case expire_time_of env row of Inl e \<Rightarrow> throw e | Inr t \<Rightarrow> succeed t)
              (\<lambda>expire_time.
            andThen (with_client (client_query
                       (insert_certificate_request env new_id now
                          (net_starttime row) expire_time (net_id row)))) (\<lambda>_.
            andThen (with_client (client_query (update_network_status (net_id row)))) (\<lambda>_.
            set_reschedule_delay 0)))
        | _ \<Rightarrow> succeed ())
       (\<lambda>_. with_client (client_transaction COMMIT))))"

text \<open>
  A pass of a worker, as the caller sees it: the client afterwards, the delay handed to
  \<open>setTimeout\<close>, the error the \<open>catch\<close> block caught, and the error that left the
  function (a \<open>ROLLBACK\<close> that throws inside \<open>catch\<close>: the \<open>finally\<close> block still runs,
  and the assignment of the backoff delay is skipped). The pass starts once
  \<open>db.ClientFromPool()\<close> has handed out the client; a pool that hands out none is not
  a pass.
\<close>

record 'iv pass =
  client_after :: "'iv conn"
  reschedule_delay :: nat
  caught :: "failure option"
  uncaught :: "failure option"

definition worker_pass :: "('iv conn \<times> nat, unit) action \<Rightarrow> 'iv conn \<Rightarrow> 'iv pass" where
  "worker_pass try_block pool =
     (case try_block (ClientFromPool pool, 2000) of
        (Inr _, (c, delay)) \<Rightarrow>
          \<lparr> client_after = release c, reschedule_delay = delay, caught = None, uncaught = None \<rparr>
      | (Inl err, (c, delay)) \<Rightarrow>
          (case client_transaction ROLLBACK c of
             (Inr _, c') \<Rightarrow>
               \<lparr> client_after = release c', reschedule_delay = 10000,
                 caught = Some err, uncaught = None \<rparr>
           | (Inl err', c') \<Rightarrow>
               \<lparr> client_after = release c', reschedule_delay = delay,
                 caught = Some err, uncaught = Some err' \<rparr>))"

definition processNewNetworks ::
  "'iv environment \<Rightarrow> timestamp \<Rightarrow> uuid \<Rightarrow> 'iv conn \<Rightarrow> 'iv pass" where
  "processNewNetworks env now new_id = worker_pass (processNewNetworks_try env now new_id)"

text \<open>The \<open>try\<close> block of \<open>processCertificateRequests\<close>.\<close>

definition processCertificateRequests_try :: "timestamp \<Rightarrow> ('iv conn \<times> nat, unit) action" where
  "processCertificateRequests_try now =
     andThen (with_client (client_transaction BEGIN)) (\<lambda>_.
     andThen (with_client (client_query (select_certificate_request now))) (\<lambda>result.
     andThen
       (case result of
          [row] \<Rightarrow>
            andThen (with_client (client_query (update_request_processing (req_id row)))) (\<lambda>_.
            set_reschedule_delay 0)
        | _ \<Rightarrow> succeed ())
       (\<lambda>_. with_client (client_transaction COMMIT))))"

definition processCertificateRequests :: "timestamp \<Rightarrow> 'iv conn \<Rightarrow> 'iv pass" where
  "processCertificateRequests now = worker_pass (processCertificateRequests_try now)"

section \<open>The API server\<close>

subsection \<open>listInvitations\<close>

text \<open>\<open>SELECT Id, Name, Lifecycle, Failure FROM MemberInvitations\<close>\<close>

definition select_invitations ::
  "'iv database
     \<Rightarrow> failure + (uuid \<times> string option \<times> string option \<times> string option) list \<times> 'iv database" where
  "select_invitations d =
     Inr (map (\<lambda>i. (inv_id i, inv_name i, inv_lifecycle i, inv_failure i)) (MemberInvitations d), d)"

text \<open>
  What \<open>listInvitations\<close> writes to \<open>res\<close>: the list it sends and the status. The function
  has no \<open>try\<close>: when the query throws, the error leaves the function at once.
\<close>

record http_response =
  sent :: "(uuid \<times> string option \<times> string option \<times> string option) list"
  status :: nat

definition listInvitations :: "'iv conn \<Rightarrow> (failure + http_response) \<times> 'iv conn" where
  "listInvitations pool =
     andThen (client_query select_invitations)
       (\<lambda>result client. (Inr \<lparr> sent = result, status = 200 \<rparr>, release client))
       (ClientFromPool pool)"

subsection \<open>addHostToAccessPoint\<close>

datatype access_column = ManagementAccess | MemberAccess | PeerAccess

fun column_value :: "access_column \<Rightarrow> InteriorSite \<Rightarrow> uuid option" where
  "column_value ManagementAccess s = site_managementaccess s"
| "column_value MemberAccess s = site_memberaccess s"
| "column_value PeerAccess s = site_peeraccess s"

text \<open>The \<open>switch (key)\<close>; \<open>None\<close> is its \<open>default\<close> branch, which throws.\<close>

definition access_column_of_key :: "string \<Rightarrow> access_column option" where
  "access_column_of_key key =
     (if key = ''skx-manage'' then Some ManagementAccess
      else if key = ''skx-member'' then Some MemberAccess
      else if key = ''skx-peer'' then Some PeerAccess
      else None)"

text \<open>
  \<open>SELECT ${ref} as access_ref, BackboneAccessPoints.* FROM InteriorSites JOIN
  BackboneAccessPoints ON ${ref} = BackboneAccessPoints.Id WHERE InteriorSites.Id = $1\<close>:
  a row is the reference with the access point it names.
\<close>

definition select_access ::
  "access_column \<Rightarrow> string \<Rightarrow> 'iv database
     \<Rightarrow> failure + (uuid \<times> BackboneAccessPoint) list \<times> 'iv database" where
  "select_access ref p1 d =
     Inr ([(ap_id ap, ap). s \<leftarrow> InteriorSites d, ap \<leftarrow> BackboneAccessPoints d,
             site_id s = p1 \<and> column_value ref s = Some (ap_id ap)], d)"

text \<open>
  \<open>UPDATE BackboneAccessPoints SET Hostname = $1, Port=$2, Lifecycle='new' WHERE Id = $3\<close>.
  A parameter that is \<open>undefined\<close> or \<open>null\<close> is stored as \<open>NULL\<close>.
\<close>

definition update_access_point ::
  "string option \<Rightarrow> string option \<Rightarrow> uuid \<Rightarrow> 'iv database \<Rightarrow> failure + unit \<times> 'iv database" where
  "update_access_point p1 p2 p3 d =
     Inr ((), d\<lparr>BackboneAccessPoints :=
        map (\<lambda>ap. if ap_id ap = p3
                   then ap\<lparr>ap_hostname := p1, ap_port := p2, ap_lifecycle := Some ''new''\<rparr>
                   else ap)
          (BackboneAccessPoints d)\<rparr>)"

text \<open>\<open>if (access.hostname)\<close>: \<open>null\<close> and the empty string are falsy.\<close>

definition truthy :: "string option \<Rightarrow> bool" where
  "truthy v = (case v of None \<Rightarrow> False | Some s \<Rightarrow> s \<noteq> [])"

definition addHostToAccessPoint_try ::
  "string \<Rightarrow> string \<Rightarrow> string option \<Rightarrow> string option \<Rightarrow> ('iv conn, unit) action" where
  "addHostToAccessPoint_try bsid key hostname port =
     andThen (client_transaction BEGIN) (\<lambda>_.
     andThen (case access_column_of_key key of
                None \<Rightarrow> throw (InvalidIngressKey key)
              | Some ref \<Rightarrow> succeed ref) (\<lambda>ref.
     andThen (client_query (select_access ref bsid)) (\<lambda>result.
       case result of
         [access] \<Rightarrow>
           if truthy (ap_hostname (snd access)) then throw (AlreadyHasHostname (fst access))
           else if ap_lifecycle (snd access) \<noteq> Some ''partial''
           then throw (UnexpectedLifecycle (fst access) (ap_lifecycle (snd access)))
           else andThen (client_query (update_access_point hostname port (fst access)))
                  (\<lambda>_. client_transaction COMMIT)
       | _ \<Rightarrow> throw (AccessPointNotFound bsid))))"

text \<open>
  The result is the value returned (\<open>retval\<close>), or the error that leaves the function
  when the \<open>ROLLBACK\<close> of the \<open>catch\<close> block throws.
\<close>

definition addHostToAccessPoint ::
  "string \<Rightarrow> string \<Rightarrow> string option \<Rightarrow> string option \<Rightarrow> 'iv conn \<Rightarrow> (failure + nat) \<times> 'iv conn" where
  "addHostToAccessPoint bsid key hostname port pool =
     (case addHostToAccessPoint_try bsid key hostname port (ClientFromPool pool) of
        (Inr _, c) \<Rightarrow> (Inr 1, release c)
      | (Inl err, c) \<Rightarrow>
          (case client_transaction ROLLBACK c of
             (Inr _, c') \<Rightarrow> (Inr 0, release c')
           | (Inl err', c') \<Rightarrow> (Inl err', release c')))"

section \<open>Claiming an invitation\<close>

datatype claim_refusal = InvitationNotFound | InvitationExpired | InstanceLimitReached

text \<open>
  Modelled from the spec: the handler of the \<open>CLAIM\<close> operation is not part of the
  sources (\<open>DispatchMessage\<close> calls whatever \<open>onClaim\<close> it is handed, and only the table
  \<open>MemberInvitations\<close> is declared). The spec's words: a MemberInvitation may only
  produce a successful \<open>CLAIM\<close> while \<open>now() <= JoinDeadline\<close> and \<open>InstanceCount <
  InstanceLimit\<close>, incrementing \<open>InstanceCount\<close> atomically with the claim; failure
  responses are expired, limit-reached, not-found. A comparison with a \<open>NULL\<close> column is
  not true.
\<close>

definition claim_invitation ::
  "timestamp \<Rightarrow> uuid \<Rightarrow> MemberInvitation list \<Rightarrow> claim_refusal + MemberInvitation list" where
  "claim_invitation now claim_id invitations =
     (case find (\<lambda>i. inv_id i = claim_id) invitations of
        None \<Rightarrow> Inl InvitationNotFound
      | Some i \<Rightarrow>
          if \<not> (case inv_joindeadline i of None \<Rightarrow> False | Some deadline \<Rightarrow> now \<le> deadline)
          then Inl InvitationExpired
          else if \<not> (case (inv_instancecount i, inv_instancelimit i) of
                        (Some n, Some limit) \<Rightarrow> n < limit | _ \<Rightarrow> False)
          then Inl InstanceLimitReached
          else Inr (map (\<lambda>j. if inv_id j = claim_id
                              then j\<lparr>inv_instancecount := map_option (\<lambda>n. n + 1) (inv_instancecount j)\<rparr>
                              else j) invitations))"

text \<open>The invariant of admission control: no invitation is over its limit.\<close>

definition within_limit :: "MemberInvitation \<Rightarrow> bool" where
  "within_limit i =
     (case (inv_instancecount i, inv_instancelimit i) of
        (Some n, Some limit) \<Rightarrow> n \<le> limit | _ \<Rightarrow> True)"

section \<open>Notions used in the statements and proofs\<close>

text \<open>The two errors \<open>DispatchMessage\<close> throws itself.\<close>

definition is_protocol_error :: "('o, 'x) dispatch_error option \<Rightarrow> bool" where
  "is_protocol_error e =
     (case e of
        Some (UnsupportedProtocolVersion _) \<Rightarrow> True
      | Some (UnknownOpCode _) \<Rightarrow> True
      | _ \<Rightarrow> False)"

text \<open>The rows the \<open>SELECT\<close> of the fulfillment worker returns (\<open>result.rows\<close>).\<close>

definition selected_requests :: "timestamp \<Rightarrow> 'iv database \<Rightarrow> CertificateRequest list" where
  "selected_requests now d =
     (case select_certificate_request now d of Inl _ \<Rightarrow> [] | Inr (rows, _) \<Rightarrow> rows)"

text \<open>
  A triple for actions: from a state that satisfies \<open>P\<close>, the action returns in a state
  that satisfies \<open>Q\<close> or throws in a state that satisfies \<open>E\<close>.
\<close>

definition ensures ::
  "('s \<Rightarrow> bool) \<Rightarrow> ('s, 'a) action \<Rightarrow> ('a \<Rightarrow> 's \<Rightarrow> bool) \<Rightarrow> ('s \<Rightarrow> bool) \<Rightarrow> bool" where
  "ensures P m Q E =
     (\<forall>s. P s \<longrightarrow> (case m s of (Inr a, s') \<Rightarrow> Q a s' | (Inl e, s') \<Rightarrow> E s'))"

text \<open>The client is inside a transaction, and the committed rows are \<open>d\<close>.\<close>

definition inside :: "'iv database \<Rightarrow> 'iv conn \<Rightarrow> bool" where
  "inside d c = (committed c = d \<and> txn c \<noteq> None)"

text \<open>The rows the \<open>SELECT\<close> of \<open>addHostToAccessPoint\<close> returns (\<open>result.rows\<close>).\<close>

definition access_rows ::
  "access_column \<Rightarrow> string \<Rightarrow> 'iv database \<Rightarrow> (uuid \<times> BackboneAccessPoint) list" where
  "access_rows ref bsid d =
     (case select_access ref bsid d of Inl _ \<Rightarrow> [] | Inr (rows, _) \<Rightarrow> rows)"

section \<open>Concrete stores\<close>

text \<open>
  Values on which the statements below are evaluated. In this environment an interval
  is its length in milliseconds, the default lifetime of a network's authority is 365
  days, and a request inserted without a \<open>Processing\<close> value gets \<open>false\<close>.
\<close>

definition millisecond_environment :: "int environment" where
  "millisecond_environment =
     \<lparr> IntervalMilliseconds = (\<lambda>v. case v of None \<Rightarrow> 0 | Some ms \<Rightarrow> ms),
       DefaultCaExpiration = 31536000000,
       ProcessingDefault = Some False \<rparr>"

definition idle_client :: "int database \<Rightarrow> int conn" where
  "idle_client d = \<lparr> committed = d, txn = None, issued = 0, faults = [], leased = False \<rparr>"

text \<open>A new network that starts on 2024-01-01T00:00Z and has no end.\<close>

definition network_2024 :: "int ApplicationNetwork" where
  "network_2024 =
     \<lparr> net_id = ''net-2024'', net_name = Some ''demo'', net_certificateauthority = None,
       net_starttime = Some 1704067200000, net_endtime = None, net_deletedelay = None,
       net_operstatus = Some ''new'' \<rparr>"

definition request :: "uuid \<Rightarrow> timestamp \<Rightarrow> timestamp \<Rightarrow> CertificateRequest" where
  "request i created requested =
     \<lparr> req_id = i, req_requesttype = Some vanCA, req_createdtime = Some created,
       req_requesttime = Some requested, req_expiretime = None, req_interiorrouter = None,
       req_applicationnetwork = Some ''net-2024'', req_invitation = None, req_site = None,
       req_processing = Some False \<rparr>"

text \<open>
  A store with that network and three pending requests, in table order: one created
  at 20, one created at 1 that is not to be handled before 1000, one created at 10.
\<close>

definition store_2024 :: "int database" where
  "store_2024 =
     \<lparr> ApplicationNetworks = [network_2024],
       CertificateRequests =
         [request ''req-b'' 20 5, request ''req-future'' 1 1000, request ''req-a'' 10 5],
       TlsCertificates = [], InteriorSites = [], BackboneAccessPoints = [],
       MemberInvitations = [] \<rparr>"

text \<open>
  A backbone store: one interior site whose management access point is still
  \<open>partial\<close> and whose peer access point is configured; one invitation with one
  instance left.
\<close>

definition backbone_store :: "int database" where
  "backbone_store =
     \<lparr> ApplicationNetworks = [], CertificateRequests = [], TlsCertificates = [],
       InteriorSites =
         [\<lparr> site_id = ''site-1'', site_certificate = None,
            site_managementaccess = Some ''ap-manage'', site_memberaccess = None,
            site_peeraccess = Some ''ap-peer'' \<rparr>],
       BackboneAccessPoints =
         [\<lparr> ap_id = ''ap-manage'', ap_hostname = None, ap_port = None,
            ap_lifecycle = Some ''partial'' \<rparr>,
          \<lparr> ap_id = ''ap-peer'', ap_hostname = Some ''peer.example.com'',
            ap_port = Some ''55671'', ap_lifecycle = Some ''ready'' \<rparr>],
       MemberInvitations =
         [\<lparr> inv_id = ''inv-1'', inv_name = Some ''edge'', inv_lifecycle = Some ''ready'',
            inv_failure = None, inv_joindeadline = Some 1000, inv_instancelimit = Some 2,
            inv_instancecount = Some 1 \<rparr>] \<rparr>"

section \<open>The protocol: dispatch\<close>

lemmas protocol_defs =
  DispatchMessage_def loosely_equals_number_def invoke_def
  VERSION_def OP_HEARTBEAT_def OP_GET_def OP_CLAIM_def
  dispatch_calls_def dispatch_error_def
  rec_onHeartbeat_def rec_onSolicit_def rec_onGet_def rec_onClaim_def

text \<open>
  On a message whose \<open>version\<close> is a number the version check is exact: \<open>DispatchMessage\<close>
  throws one of its two errors if and only if the version is not 1 or \<open>op\<close> is not one
  of \<open>'HB'\<close>, \<open>'GET'\<close>, \<open>'CLAIM'\<close>; when it does, no handler is invoked (the caller's state
  is untouched whatever the handlers are), and otherwise exactly one is.
\<close>

lemma DispatchMessage_gate_on_numbers:
  fixes b :: "'o message"
  assumes "version b = JNum x"
  shows
    "(is_protocol_error (fst (DispatchMessage rt (Some b) onHeartbeat onSolicit onGet onClaim w))
        \<longleftrightarrow> x \<noteq> 1 \<or> op b \<notin> {JStr ''HB'', JStr ''GET'', JStr ''CLAIM''})
     \<and> (x \<noteq> 1 \<or> op b \<notin> {JStr ''HB'', JStr ''GET'', JStr ''CLAIM''}
        \<longrightarrow> snd (DispatchMessage rt (Some b) onHeartbeat onSolicit onGet onClaim w) = w
            \<and> dispatch_calls rt (Some b) = []
            \<and> is_protocol_error (dispatch_error rt (Some b)))
     \<and> (x = 1 \<and> op b \<in> {JStr ''HB'', JStr ''GET'', JStr ''CLAIM''}
        \<longrightarrow> length (dispatch_calls rt (Some b)) = 1 \<and> dispatch_error rt (Some b) = None)"
  using assms
  by (auto simp: is_protocol_error_def protocol_defs split: prod.splits option.splits)

text \<open>
  A \<open>version\<close> that is an object without a primitive value makes the comparison itself
  throw: the call ends with a \<open>TypeError\<close> and no handler is invoked.
\<close>

lemma DispatchMessage_version_without_primitive:
  assumes "version b = JObj ob" and "ToPrimitive rt ob = None"
  shows "DispatchMessage rt (Some b) onHeartbeat onSolicit onGet onClaim w = (Some TypeError, w)"
  using assms by (simp add: DispatchMessage_def loosely_equals_number_def)

text \<open>
  C6 does not hold of the code, because the version gate compares with the loose
  \<open>!=\<close>: the message \<open>{version: true, op: 'HB', site: 'site-1', hashset: null, address:
  'amqp:/a'}\<close> has a version that is not 1, yet \<open>true != 1\<close> is false, so nothing is
  thrown and the heartbeat handler is called.
\<close>

theorem DispatchMessage_accepts_version_true:
  "version ((Heartbeat (JStr ''site-1'') JNull (JStr ''amqp:/a'')) \<lparr>version := JBool True\<rparr>
            :: unit message) \<noteq> JNum 1
   \<and> dispatch_error decimal_runtime
        (Some ((Heartbeat (JStr ''site-1'') JNull (JStr ''amqp:/a'')) \<lparr>version := JBool True\<rparr>)) = None
   \<and> dispatch_calls decimal_runtime
        (Some ((Heartbeat (JStr ''site-1'') JNull (JStr ''amqp:/a'')) \<lparr>version := JBool True\<rparr>))
       = [OnHeartbeat (JStr ''site-1'') JNull (JStr ''amqp:/a'')]"
  by (simp add: protocol_defs Heartbeat_def)

text \<open>
  C10: whatever the message and the handlers, the outcome of \<open>DispatchMessage\<close> (the
  error and the caller's state) is the same for every value passed as \<open>onSolicit\<close>, of
  any type: it is never called. With the recording handlers, no call of the solicit
  handler is ever recorded.
\<close>

theorem DispatchMessage_never_invokes_onSolicit:
  "DispatchMessage rt body onHeartbeat onSolicit onGet onClaim w
     = DispatchMessage rt body onHeartbeat onSolicit' onGet onClaim w
   \<and> OnSolicit \<notin> set (dispatch_calls rt body)"
  by (auto simp: protocol_defs split: prod.splits option.splits)

section \<open>The protocol: construct, then dispatch\<close>

text \<open>
  C7, as stated, fails for the heartbeat: built with an \<open>undefined\<close> address, the
  message carries the default \<open>""\<close>, and the heartbeat handler is called with \<open>""\<close>
  and not with the \<open>undefined\<close> that was passed.
\<close>

theorem Heartbeat_undefined_address_not_preserved:
  "dispatch_calls decimal_runtime (Some (Heartbeat (JStr ''site-1'') JNull JUndefined))
     = [OnHeartbeat (JStr ''site-1'') JNull (JStr [])]
   \<and> dispatch_calls decimal_runtime (Some (Heartbeat (JStr ''site-1'') JNull JUndefined))
     \<noteq> [OnHeartbeat (JStr ''site-1'') JNull JUndefined]"
  by (simp add: protocol_defs Heartbeat_def)

text \<open>
  C7, amended: for all argument values and every runtime, dispatching the message
  built by \<open>Heartbeat(fromSite, hashSet, address)\<close> invokes exactly the heartbeat
  handler, with \<open>(fromSite, hashSet, address)\<close> where an \<open>undefined\<close> address is
  replaced by the empty string; the message built by \<open>GetObject(fromSite, objectName)\<close>
  invokes exactly the get handler with \<open>(fromSite, objectName)\<close>; the message built by
  \<open>AssertClaim(claimId, name)\<close> invokes exactly the claim handler with \<open>(claimId, name)\<close>.
  In each case the dispatch is that one call and nothing else (first three equations,
  for arbitrary handlers), and with the recording handlers that call is the only one
  recorded and no error is thrown.
\<close>

theorem construct_then_dispatch:
  "DispatchMessage rt (Some (Heartbeat fromSite hashSet address_arg)) onHeartbeat onSolicit onGet onClaim w
     = invoke (onHeartbeat fromSite hashSet
                 (if address_arg = JUndefined then JStr [] else address_arg)) w
   \<and> DispatchMessage rt (Some (GetObject fromSite objectName)) onHeartbeat onSolicit onGet onClaim w
     = invoke (onGet fromSite objectName) w
   \<and> DispatchMessage rt (Some (AssertClaim claimId name_arg)) onHeartbeat onSolicit onGet onClaim w
     = invoke (onClaim claimId name_arg) w
   \<and> dispatch_calls rt (Some (Heartbeat fromSite hashSet address_arg))
     = [OnHeartbeat fromSite hashSet (if address_arg = JUndefined then JStr [] else address_arg)]
   \<and> dispatch_error rt (Some (Heartbeat fromSite hashSet address_arg)) = None
   \<and> dispatch_calls rt (Some (GetObject fromSite objectName)) = [OnGet fromSite objectName]
   \<and> dispatch_error rt (Some (GetObject fromSite objectName)) = None
   \<and> dispatch_calls rt (Some (AssertClaim claimId name_arg)) = [OnClaim claimId name_arg]
   \<and> dispatch_error rt (Some (AssertClaim claimId name_arg)) = None"
  by (simp add: protocol_defs Heartbeat_def GetObject_def AssertClaim_def)

theorem construct_then_dispatch_witness:
  "dispatch_calls decimal_runtime (Some (Heartbeat (JStr ''site-1'') JNull (JStr ''amqp:/a'')))
     = [OnHeartbeat (JStr ''site-1'') JNull (JStr ''amqp:/a'')]
   \<and> dispatch_calls decimal_runtime (Some (GetObject (JStr ''site-1'') (JStr ''links'')))
     = [OnGet (JStr ''site-1'') (JStr ''links'')]
   \<and> dispatch_calls decimal_runtime (Some (AssertClaim (JStr ''c-1'') JUndefined))
     = [OnClaim (JStr ''c-1'') JUndefined]"
  using construct_then_dispatch
      [where rt = decimal_runtime and fromSite = "JStr ''site-1''" and hashSet = JNull
         and address_arg = "JStr ''amqp:/a''" and objectName = "JStr ''links''"
         and claimId = "JStr ''c-1''" and name_arg = JUndefined
         and onHeartbeat = rec_onHeartbeat
         and onSolicit = "rec_onSolicit :: (unit call list, unit) effect"
         and onGet = rec_onGet and onClaim = rec_onClaim and w = "[]"]
  by simp

section \<open>Reasoning about actions\<close>

lemmas action_defs =
  andThen_def succeed_def throw_def with_client_def set_reschedule_delay_def
  client_query_def client_transaction_def visible_def write_rows_def
  ClientFromPool_def release_def

lemma ensuresI:
  assumes "\<And>s a s'. P s \<Longrightarrow> m s = (Inr a, s') \<Longrightarrow> Q a s'"
    and "\<And>s e s'. P s \<Longrightarrow> m s = (Inl e, s') \<Longrightarrow> E s'"
  shows "ensures P m Q E"
  using assms by (auto simp: ensures_def split: prod.splits sum.splits)

lemma ensures_thrown: "ensures P m Q E \<Longrightarrow> P s \<Longrightarrow> m s = (Inl e, s') \<Longrightarrow> E s'"
  by (fastforce simp: ensures_def)

lemma ensures_returned: "ensures P m Q E \<Longrightarrow> P s \<Longrightarrow> m s = (Inr a, s') \<Longrightarrow> Q a s'"
  by (fastforce simp: ensures_def)

lemma ensures_andThen:
  assumes "ensures P m Q E" and "\<And>a. ensures (Q a) (f a) R E"
  shows "ensures P (andThen m f) R E"
  using assms unfolding ensures_def andThen_def
  by (fastforce split: prod.splits sum.splits)

lemma ensures_succeed: "ensures (Q a) (succeed a) Q E"
  by (simp add: ensures_def succeed_def)

lemma ensures_throw: "ensures E (throw e) Q E"
  by (simp add: ensures_def throw_def)

lemma ensures_from: "ensures P' m Q E \<Longrightarrow> (\<And>s. P s \<Longrightarrow> P' s) \<Longrightarrow> ensures P m Q E"
  by (auto simp: ensures_def)

lemma ensures_with_client:
  "ensures P m Q E \<Longrightarrow>
   ensures (\<lambda>s. P (fst s)) (with_client m) (\<lambda>a s. Q a (fst s)) (\<lambda>s. E (fst s))"
  unfolding ensures_def with_client_def
  by (fastforce split: prod.splits sum.splits)

lemma ensures_set_reschedule_delay:
  "ensures (\<lambda>s. Q (fst s)) (set_reschedule_delay n) (\<lambda>_ s. Q (fst s)) E"
  by (simp add: ensures_def set_reschedule_delay_def)

text \<open>
  What each query leaves of the committed rows: \<open>BEGIN\<close> enters a transaction, a
  statement inside a transaction writes to the working copy only, and a \<open>COMMIT\<close> that
  throws publishes nothing.
\<close>

lemma BEGIN_keeps_committed:
  "ensures (\<lambda>c. committed c = d) (client_transaction BEGIN) (\<lambda>_. inside d) (\<lambda>c. committed c = d)"
  by (rule ensuresI) (auto simp: client_transaction_def inside_def Let_def split: if_splits)

lemma query_keeps_committed:
  "ensures (inside d) (client_query stmt) (\<lambda>_. inside d) (\<lambda>c. committed c = d)"
  by (rule ensuresI)
     (auto simp: client_query_def inside_def Let_def visible_def write_rows_def
           split: if_splits sum.splits option.splits)

lemma COMMIT_keeps_committed_when_thrown:
  "ensures (inside d) (client_transaction COMMIT) (\<lambda>_ _. True) (\<lambda>c. committed c = d)"
  by (rule ensuresI) (auto simp: client_transaction_def inside_def Let_def split: if_splits)

lemma ROLLBACK_keeps_committed:
  "committed (snd (client_transaction ROLLBACK c)) = committed c"
  by (simp add: client_transaction_def Let_def)

lemma ROLLBACK_closes:
  "client_transaction ROLLBACK c = (Inr u, c') \<Longrightarrow> txn c' = None"
  by (auto simp: client_transaction_def Let_def split: if_splits)

lemma processNewNetworks_try_keeps_committed:
  "ensures (\<lambda>s. committed (fst s) = d) (processNewNetworks_try env now new_id)
     (\<lambda>_ _. True) (\<lambda>s. committed (fst s) = d)"
  unfolding processNewNetworks_try_def
  apply (rule ensures_andThen [OF ensures_with_client [OF BEGIN_keeps_committed]])
  apply (rule ensures_andThen [OF ensures_with_client [OF query_keeps_committed]])
  apply (rule ensures_andThen [where Q = "\<lambda>_ s. inside d (fst s)"])
   apply (simp split: list.splits)
   apply (intro conjI allI impI ensures_succeed)
   apply (rule ensures_andThen [where Q = "\<lambda>_ s. inside d (fst s)"])
    apply (simp split: sum.splits)
    apply (intro conjI allI impI ensures_succeed)
    apply (rule ensures_from [OF ensures_throw])
    apply (simp add: inside_def)
   apply (rule ensures_andThen [OF ensures_with_client [OF query_keeps_committed]])
   apply (rule ensures_andThen [OF ensures_with_client [OF query_keeps_committed]])
   apply (rule ensures_set_reschedule_delay)
  apply (rule ensures_with_client [OF COMMIT_keeps_committed_when_thrown])
  done

lemma processCertificateRequests_try_keeps_committed:
  "ensures (\<lambda>s. committed (fst s) = d) (processCertificateRequests_try now)
     (\<lambda>_ _. True) (\<lambda>s. committed (fst s) = d)"
  unfolding processCertificateRequests_try_def
  apply (rule ensures_andThen [OF ensures_with_client [OF BEGIN_keeps_committed]])
  apply (rule ensures_andThen [OF ensures_with_client [OF query_keeps_committed]])
  apply (rule ensures_andThen [where Q = "\<lambda>_ s. inside d (fst s)"])
   apply (simp split: list.splits)
   apply (intro conjI allI impI ensures_succeed)
   apply (rule ensures_andThen [OF ensures_with_client [OF query_keeps_committed]])
   apply (rule ensures_set_reschedule_delay)
  apply (rule ensures_with_client [OF COMMIT_keeps_committed_when_thrown])
  done

text \<open>
  A pass whose \<open>try\<close> block publishes nothing when it throws: if the \<open>catch\<close> block ran,
  the committed rows are those before the pass, and when its \<open>ROLLBACK\<close> returned no
  transaction is left open on the client.
\<close>

lemma worker_pass_rolls_back:
  assumes keeps: "ensures (\<lambda>s. committed (fst s) = committed c) t (\<lambda>_ _. True)
             (\<lambda>s. committed (fst s) = committed c)"
    and thrown: "caught (worker_pass t c) \<noteq> None"
  shows "committed (client_after (worker_pass t c)) = committed c
         \<and> (uncaught (worker_pass t c) = None \<longrightarrow> txn (client_after (worker_pass t c)) = None)"
proof -
  obtain r c' d where run: "t (ClientFromPool c, 2000) = (r, (c', d))"
    by (metis prod_cases3)
  show ?thesis
  proof (cases r)
    case (Inl e)
    have "committed (fst (c', d)) = committed c"
      by (rule ensures_thrown [OF keeps _ run [unfolded Inl]]) (simp add: ClientFromPool_def)
    then show ?thesis
      using run Inl ROLLBACK_keeps_committed [of c'] ROLLBACK_closes [of c']
      by (cases "client_transaction ROLLBACK c'")
         (auto simp: worker_pass_def release_def split: sum.splits)
  next
    case (Inr a)
    then show ?thesis
      using thrown run by (simp add: worker_pass_def)
  qed
qed

lemma worker_pass_releases: "leased (client_after (worker_pass t c)) = False"
  by (simp add: worker_pass_def release_def split: prod.splits sum.splits)

section \<open>Network intake\<close>

lemmas intake_defs =
  processNewNetworks_def worker_pass_def processNewNetworks_try_def action_defs
  select_new_network_def insert_certificate_request_def update_network_status_def Let_def

text \<open>
  A pass of the intake worker on an idle client, with no query failing, that finds the
  new network \<open>row\<close> and builds a valid expiration date for its request.
\<close>

lemma processNewNetworks_on_new_network:
  assumes "txn c = None" and "faults c = []"
    and "filter (\<lambda>n. net_operstatus n = Some ''new'') (ApplicationNetworks (committed c)) = row # rest"
    and "new_id \<notin> req_id ` set (CertificateRequests (committed c))"
    and "expire_time_of env row = Inr (Some t)"
  shows "processNewNetworks env now new_id c =
     \<lparr> client_after = c\<lparr> committed := (committed c)\<lparr>
           CertificateRequests := CertificateRequests (committed c) @
             [\<lparr> req_id = new_id, req_requesttype = Some vanCA, req_createdtime = Some now,
                req_requesttime = net_starttime row, req_expiretime = Some t,
                req_interiorrouter = None, req_applicationnetwork = Some (net_id row),
                req_invitation = None, req_site = None,
                req_processing = ProcessingDefault env \<rparr>],
           ApplicationNetworks :=
             map (\<lambda>n. if net_id n = net_id row
                       then n\<lparr>net_operstatus := Some ''cert_request_created''\<rparr> else n)
               (ApplicationNetworks (committed c))\<rparr>,
         txn := None, issued := issued c + 5, leased := False\<rparr>,
       reschedule_delay = 0, caught = None, uncaught = None \<rparr>"
  using assms by (simp add: intake_defs)

text \<open>
  The same pass on a network that has neither an end time nor a start time: reading
  \<open>row.starttime.getTime()\<close> throws, and the pass is rolled back.
\<close>

lemma processNewNetworks_on_undated_network:
  assumes "txn c = None" and "faults c = []"
    and "filter (\<lambda>n. net_operstatus n = Some ''new'') (ApplicationNetworks (committed c)) = row # rest"
    and "net_endtime row = None" and "net_starttime row = None"
  shows "caught (processNewNetworks env now new_id c) = Some NullDereference
         \<and> committed (client_after (processNewNetworks env now new_id c)) = committed c"
  using assms by (simp add: intake_defs expire_time_of_def)

lemma expire_time_of_dated:
  "net_endtime row \<noteq> None \<or> net_starttime row \<noteq> None \<Longrightarrow> \<exists>d. expire_time_of env row = Inr d"
  by (auto simp: expire_time_of_def split: option.splits)

text \<open>What a valid expiration date is, in the words of the claim.\<close>

lemma expire_time_of_valid:
  "expire_time_of env row = Inr (Some t) \<longleftrightarrow>
     (case net_endtime row of
        Some e \<Rightarrow> Some (e + IntervalMilliseconds env (net_deletedelay row))
      | None \<Rightarrow> map_option (\<lambda>s. s + IntervalMilliseconds env (Some (DefaultCaExpiration env)))
                  (net_starttime row)) = Some t
     \<and> \<bar>t\<bar> \<le> 8640000000000000"
  by (auto simp: expire_time_of_def Date_setTime_def split: option.splits)

lemma in_set_filter_head: "filter P xs = y # ys \<Longrightarrow> y \<in> set xs \<and> P y"
proof -
  assume "filter P xs = y # ys"
  then have "y \<in> set (filter P xs)" by simp
  then show ?thesis by simp
qed

text \<open>
  A pass on an idle client that found \<open>row\<close> and in which the \<open>catch\<close> block did not
  run: every query returned, the expiration date was valid and the identifier unused,
  and the pass is the one of \<open>processNewNetworks_on_new_network\<close>.
\<close>

lemma processNewNetworks_without_error:
  assumes idle: "txn c = None"
    and found: "filter (\<lambda>n. net_operstatus n = Some ''new'') (ApplicationNetworks (committed c)) = row # rest"
    and ok: "caught (processNewNetworks env now new_id c) = None"
  shows "\<exists>t. expire_time_of env row = Inr (Some t)
     \<and> processNewNetworks env now new_id c =
     \<lparr> client_after = c\<lparr> committed := (committed c)\<lparr>
           CertificateRequests := CertificateRequests (committed c) @
             [\<lparr> req_id = new_id, req_requesttype = Some vanCA, req_createdtime = Some now,
                req_requesttime = net_starttime row, req_expiretime = Some t,
                req_interiorrouter = None, req_applicationnetwork = Some (net_id row),
                req_invitation = None, req_site = None,
                req_processing = ProcessingDefault env \<rparr>],
           ApplicationNetworks :=
             map (\<lambda>n. if net_id n = net_id row
                       then n\<lparr>net_operstatus := Some ''cert_request_created''\<rparr> else n)
               (ApplicationNetworks (committed c))\<rparr>,
         txn := None, issued := issued c + 5, leased := False\<rparr>,
       reschedule_delay = 0, caught = None, uncaught = None \<rparr>"
proof -
  have q0: "issued c \<notin> set (faults c)"
  proof
    assume "issued c \<in> set (faults c)"
    then have "caught (processNewNetworks env now new_id c) \<noteq> None"
      by (simp add: intake_defs)
    with ok show False by simp
  qed
  have q1: "Suc (issued c) \<notin> set (faults c)"
  proof
    assume "Suc (issued c) \<in> set (faults c)"
    then have "caught (processNewNetworks env now new_id c) \<noteq> None"
      using q0 by (simp add: intake_defs)
    with ok show False by simp
  qed
  obtain t where valid: "expire_time_of env row = Inr (Some t)"
  proof (cases "expire_time_of env row")
    case (Inl e)
    then have "caught (processNewNetworks env now new_id c) \<noteq> None"
      using q0 q1 idle found by (simp add: intake_defs)
    with ok show ?thesis by simp
  next
    case (Inr d)
    show ?thesis
    proof (cases d)
      case None
      then have "caught (processNewNetworks env now new_id c) \<noteq> None"
        using q0 q1 idle found Inr by (simp add: intake_defs)
      with ok show ?thesis by simp
    next
      case (Some t)
      with Inr that show ?thesis by simp
    qed
  qed
  have q2: "Suc (Suc (issued c)) \<notin> set (faults c)"
  proof
    assume "Suc (Suc (issued c)) \<in> set (faults c)"
    then have "caught (processNewNetworks env now new_id c) \<noteq> None"
      using q0 q1 idle found valid by (simp add: intake_defs)
    with ok show False by simp
  qed
  have fresh: "new_id \<notin> req_id ` set (CertificateRequests (committed c))"
  proof
    assume "new_id \<in> req_id ` set (CertificateRequests (committed c))"
    then have "caught (processNewNetworks env now new_id c) \<noteq> None"
      using q0 q1 q2 idle found valid by (simp add: intake_defs)
    with ok show False by simp
  qed
  have q3: "Suc (Suc (Suc (issued c))) \<notin> set (faults c)"
  proof
    assume "Suc (Suc (Suc (issued c))) \<in> set (faults c)"
    then have "caught (processNewNetworks env now new_id c) \<noteq> None"
      using q0 q1 q2 fresh idle found valid by (simp add: intake_defs)
    with ok show False by simp
  qed
  have q4: "Suc (Suc (Suc (Suc (issued c)))) \<notin> set (faults c)"
  proof
    assume "Suc (Suc (Suc (Suc (issued c)))) \<in> set (faults c)"
    then have "caught (processNewNetworks env now new_id c) \<noteq> None"
      using q0 q1 q2 q3 fresh idle found valid by (simp add: intake_defs)
    with ok show False by simp
  qed
  have "processNewNetworks env now new_id c =
     \<lparr> client_after = c\<lparr> committed := (committed c)\<lparr>
           CertificateRequests := CertificateRequests (committed c) @
             [\<lparr> req_id = new_id, req_requesttype = Some vanCA, req_createdtime = Some now,
                req_requesttime = net_starttime row, req_expiretime = Some t,
                req_interiorrouter = None, req_applicationnetwork = Some (net_id row),
                req_invitation = None, req_site = None,
                req_processing = ProcessingDefault env \<rparr>],
           ApplicationNetworks :=
             map (\<lambda>n. if net_id n = net_id row
                       then n\<lparr>net_operstatus := Some ''cert_request_created''\<rparr> else n)
               (ApplicationNetworks (committed c))\<rparr>,
         txn := None, issued := issued c + 5, leased := False\<rparr>,
       reschedule_delay = 0, caught = None, uncaught = None \<rparr>"
    using q0 q1 q2 q3 q4 fresh idle found valid by (simp add: intake_defs)
  with valid show ?thesis by blast
qed

text \<open>
  C1, as stated, fails: a pass that finds a new network does not insert a request when
  an error is thrown in it. Two passes on an idle client. In the first no query fails,
  and the store's only network is new and has neither a start time nor an end time;
  the pass finds it, \<open>row.starttime.getTime()\<close> throws, and after the pass the table of
  requests is as it was and the network is still \<open>'new'\<close>. In the second the network
  is the dated \<open>network_2024\<close> and the store fails the \<open>INSERT\<close> (the third query); the
  pass is rolled back and the committed rows are as they were.
\<close>

theorem processNewNetworks_inserts_nothing_on_error:
  "filter (\<lambda>n. net_operstatus n = Some ''new'')
      (ApplicationNetworks (committed (idle_client
         (store_2024\<lparr>ApplicationNetworks := [network_2024\<lparr>net_starttime := None\<rparr>]\<rparr>))))
     = [network_2024\<lparr>net_starttime := None\<rparr>]
   \<and> caught (processNewNetworks millisecond_environment 1700000000000 ''req-new''
        (idle_client (store_2024\<lparr>ApplicationNetworks := [network_2024\<lparr>net_starttime := None\<rparr>]\<rparr>)))
     = Some NullDereference
   \<and> CertificateRequests (committed (client_after
        (processNewNetworks millisecond_environment 1700000000000 ''req-new''
          (idle_client (store_2024\<lparr>ApplicationNetworks := [network_2024\<lparr>net_starttime := None\<rparr>]\<rparr>)))))
     = CertificateRequests store_2024
   \<and> map net_operstatus (ApplicationNetworks (committed (client_after
        (processNewNetworks millisecond_environment 1700000000000 ''req-new''
          (idle_client (store_2024\<lparr>ApplicationNetworks := [network_2024\<lparr>net_starttime := None\<rparr>]\<rparr>))))))
     = [Some ''new'']
   \<and> filter (\<lambda>n. net_operstatus n = Some ''new'')
        (ApplicationNetworks (committed ((idle_client store_2024)\<lparr>faults := [2]\<rparr>)))
     = [network_2024]
   \<and> caught (processNewNetworks millisecond_environment 1700000000000 ''req-new''
        ((idle_client store_2024)\<lparr>faults := [2]\<rparr>)) = Some QueryFailed
   \<and> committed (client_after (processNewNetworks millisecond_environment 1700000000000 ''req-new''
        ((idle_client store_2024)\<lparr>faults := [2]\<rparr>))) = store_2024"
  by (simp add: intake_defs expire_time_of_def Date_setTime_def millisecond_environment_def
        idle_client_def store_2024_def network_2024_def)

text \<open>
  C1, amended: a pass of \<open>processNewNetworks\<close> on an idle client that finds a network
  \<open>row\<close> with \<open>OperStatus = 'new'\<close> (the first such row of the table: the one the
  \<open>SELECT ... LIMIT 1\<close> returns) and in which no error is thrown inserts exactly one
  CertificateRequest: the table afterwards is the table before with one row appended.
  That row has kind \<open>vanCA\<close>, names the network, is created at \<open>now\<close>, has
  \<open>RequestTime\<close> equal to the network's \<open>StartTime\<close>, and has \<open>ExpireTime\<close> equal to
  \<open>EndTime + DeleteDelay\<close> when \<open>EndTime\<close> is defined and to \<open>StartTime\<close> plus the
  configured default lifetime otherwise (both intervals in milliseconds, as
  \<open>db.IntervalMilliseconds\<close> reads them). The network's \<open>OperStatus\<close> is advanced to
  \<open>'cert_request_created'\<close> and no other network changes. No error is thrown when no
  query fails, the generated identifier is not in use, and the expiration so computed
  exists (the network has an end time or a start time) and is a valid date.
\<close>

theorem processNewNetworks_creates_request:
  assumes idle: "txn c = None"
    and found: "filter (\<lambda>n. net_operstatus n = Some ''new'') (ApplicationNetworks (committed c)) = row # rest"
  shows
    "(caught (processNewNetworks env now new_id c) = None \<longrightarrow>
        (\<exists>req.
            CertificateRequests (committed (client_after (processNewNetworks env now new_id c)))
              = CertificateRequests (committed c) @ [req]
          \<and> req_requesttype req = Some vanCA
          \<and> req_applicationnetwork req = Some (net_id row)
          \<and> req_createdtime req = Some now
          \<and> req_requesttime req = net_starttime row
          \<and> req_expiretime req \<noteq> None
          \<and> req_expiretime req =
              (case net_endtime row of
                 Some e \<Rightarrow> Some (e + IntervalMilliseconds env (net_deletedelay row))
               | None \<Rightarrow> map_option (\<lambda>s. s + IntervalMilliseconds env (Some (DefaultCaExpiration env)))
                           (net_starttime row)))
        \<and> ApplicationNetworks (committed (client_after (processNewNetworks env now new_id c)))
            = map (\<lambda>n. if net_id n = net_id row
                       then n\<lparr>net_operstatus := Some ''cert_request_created''\<rparr> else n)
                (ApplicationNetworks (committed c))
        \<and> row\<lparr>net_operstatus := Some ''cert_request_created''\<rparr>
            \<in> set (ApplicationNetworks (committed (client_after (processNewNetworks env now new_id c))))
        \<and> uncaught (processNewNetworks env now new_id c) = None)
     \<and> (faults c = []
          \<and> new_id \<notin> req_id ` set (CertificateRequests (committed c))
          \<and> (\<exists>t. (case net_endtime row of
                      Some e \<Rightarrow> Some (e + IntervalMilliseconds env (net_deletedelay row))
                    | None \<Rightarrow> map_option (\<lambda>s. s + IntervalMilliseconds env (Some (DefaultCaExpiration env)))
                                (net_starttime row)) = Some t
                \<and> \<bar>t\<bar> \<le> 8640000000000000)
        \<longrightarrow> caught (processNewNetworks env now new_id c) = None)"
proof (intro conjI)
  show "caught (processNewNetworks env now new_id c) = None \<longrightarrow>
        (\<exists>req.
            CertificateRequests (committed (client_after (processNewNetworks env now new_id c)))
              = CertificateRequests (committed c) @ [req]
          \<and> req_requesttype req = Some vanCA
          \<and> req_applicationnetwork req = Some (net_id row)
          \<and> req_createdtime req = Some now
          \<and> req_requesttime req = net_starttime row
          \<and> req_expiretime req \<noteq> None
          \<and> req_expiretime req =
              (case net_endtime row of
                 Some e \<Rightarrow> Some (e + IntervalMilliseconds env (net_deletedelay row))
               | None \<Rightarrow> map_option (\<lambda>s. s + IntervalMilliseconds env (Some (DefaultCaExpiration env)))
                           (net_starttime row)))
        \<and> ApplicationNetworks (committed (client_after (processNewNetworks env now new_id c)))
            = map (\<lambda>n. if net_id n = net_id row
                       then n\<lparr>net_operstatus := Some ''cert_request_created''\<rparr> else n)
                (ApplicationNetworks (committed c))
        \<and> row\<lparr>net_operstatus := Some ''cert_request_created''\<rparr>
            \<in> set (ApplicationNetworks (committed (client_after (processNewNetworks env now new_id c))))
        \<and> uncaught (processNewNetworks env now new_id c) = None"
  proof
    assume ok: "caught (processNewNetworks env now new_id c) = None"
    from processNewNetworks_without_error [OF idle found ok]
    obtain t where valid: "expire_time_of env row = Inr (Some t)"
      and run: "processNewNetworks env now new_id c =
     \<lparr> client_after = c\<lparr> committed := (committed c)\<lparr>
           CertificateRequests := CertificateRequests (committed c) @
             [\<lparr> req_id = new_id, req_requesttype = Some vanCA, req_createdtime = Some now,
                req_requesttime = net_starttime row, req_expiretime = Some t,
                req_interiorrouter = None, req_applicationnetwork = Some (net_id row),
                req_invitation = None, req_site = None,
                req_processing = ProcessingDefault env \<rparr>],
           ApplicationNetworks :=
             map (\<lambda>n. if net_id n = net_id row
                       then n\<lparr>net_operstatus := Some ''cert_request_created''\<rparr> else n)
               (ApplicationNetworks (committed c))\<rparr>,
         txn := None, issued := issued c + 5, leased := False\<rparr>,
       reschedule_delay = 0, caught = None, uncaught = None \<rparr>"
      by blast
    have formula: "(case net_endtime row of
                 Some e \<Rightarrow> Some (e + IntervalMilliseconds env (net_deletedelay row))
               | None \<Rightarrow> map_option (\<lambda>s. s + IntervalMilliseconds env (Some (DefaultCaExpiration env)))
                           (net_starttime row)) = Some t"
      using valid by (simp add: expire_time_of_valid)
    have member: "row \<in> set (ApplicationNetworks (committed c))"
      using in_set_filter_head [OF found] by simp
    have "row\<lparr>net_operstatus := Some ''cert_request_created''\<rparr>
          \<in> (\<lambda>n. if net_id n = net_id row
                   then n\<lparr>net_operstatus := Some ''cert_request_created''\<rparr> else n)
             ` set (ApplicationNetworks (committed c))"
      using member by (rule rev_image_eqI) simp
    then show "(\<exists>req.
            CertificateRequests (committed (client_after (processNewNetworks env now new_id c)))
              = CertificateRequests (committed c) @ [req]
          \<and> req_requesttype req = Some vanCA
          \<and> req_applicationnetwork req = Some (net_id row)
          \<and> req_createdtime req = Some now
          \<and> req_requesttime req = net_starttime row
          \<and> req_expiretime req \<noteq> None
          \<and> req_expiretime req =
              (case net_endtime row of
                 Some e \<Rightarrow> Some (e + IntervalMilliseconds env (net_deletedelay row))
               | None \<Rightarrow> map_option (\<lambda>s. s + IntervalMilliseconds env (Some (DefaultCaExpiration env)))
                           (net_starttime row)))
        \<and> ApplicationNetworks (committed (client_after (processNewNetworks env now new_id c)))
            = map (\<lambda>n. if net_id n = net_id row
                       then n\<lparr>net_operstatus := Some ''cert_request_created''\<rparr> else n)
                (ApplicationNetworks (committed c))
        \<and> row\<lparr>net_operstatus := Some ''cert_request_created''\<rparr>
            \<in> set (ApplicationNetworks (committed (client_after (processNewNetworks env now new_id c))))
        \<and> uncaught (processNewNetworks env now new_id c) = None"
      by (simp add: run formula)
  qed
  show "faults c = []
          \<and> new_id \<notin> req_id ` set (CertificateRequests (committed c))
          \<and> (\<exists>t. (case net_endtime row of
                      Some e \<Rightarrow> Some (e + IntervalMilliseconds env (net_deletedelay row))
                    | None \<Rightarrow> map_option (\<lambda>s. s + IntervalMilliseconds env (Some (DefaultCaExpiration env)))
                                (net_starttime row)) = Some t
                \<and> \<bar>t\<bar> \<le> 8640000000000000)
        \<longrightarrow> caught (processNewNetworks env now new_id c) = None"
  proof
    assume sound: "faults c = []
          \<and> new_id \<notin> req_id ` set (CertificateRequests (committed c))
          \<and> (\<exists>t. (case net_endtime row of
                      Some e \<Rightarrow> Some (e + IntervalMilliseconds env (net_deletedelay row))
                    | None \<Rightarrow> map_option (\<lambda>s. s + IntervalMilliseconds env (Some (DefaultCaExpiration env)))
                                (net_starttime row)) = Some t
                \<and> \<bar>t\<bar> \<le> 8640000000000000)"
    then obtain t where "expire_time_of env row = Inr (Some t)"
      using expire_time_of_valid [of env row] by blast
    from processNewNetworks_on_new_network [OF idle _ found _ this, of new_id now] sound
    show "caught (processNewNetworks env now new_id c) = None"
      by simp
  qed
qed

theorem processNewNetworks_creates_request_witness:
  "filter (\<lambda>n. net_operstatus n = Some ''new'') (ApplicationNetworks (committed (idle_client store_2024)))
     = [network_2024]
   \<and> caught (processNewNetworks millisecond_environment 1700000000000 ''req-new''
               (idle_client store_2024)) = None
   \<and> (\<exists>req.
        CertificateRequests (committed (client_after
          (processNewNetworks millisecond_environment 1700000000000 ''req-new'' (idle_client store_2024))))
          = CertificateRequests store_2024 @ [req]
        \<and> req_requesttype req = Some vanCA
        \<and> req_applicationnetwork req = Some ''net-2024''
        \<and> req_createdtime req = Some 1700000000000
        \<and> req_requesttime req = Some 1704067200000
        \<and> req_expiretime req = Some 1735603200000)
   \<and> ApplicationNetworks (committed (client_after
        (processNewNetworks millisecond_environment 1700000000000 ''req-new'' (idle_client store_2024))))
     = [network_2024\<lparr>net_operstatus := Some ''cert_request_created''\<rparr>]"
proof -
  define p where
    "p = processNewNetworks millisecond_environment 1700000000000 ''req-new'' (idle_client store_2024)"
  have idle: "txn (idle_client store_2024) = None"
    by (simp add: idle_client_def)
  have found: "filter (\<lambda>n. net_operstatus n = Some ''new'')
                 (ApplicationNetworks (committed (idle_client store_2024))) = network_2024 # []"
    by (simp add: idle_client_def store_2024_def network_2024_def)
  have sound: "faults (idle_client store_2024) = []
      \<and> ''req-new'' \<notin> req_id ` set (CertificateRequests (committed (idle_client store_2024)))
      \<and> (\<exists>t. (case net_endtime network_2024 of
                  Some e \<Rightarrow> Some (e + IntervalMilliseconds millisecond_environment
                                        (net_deletedelay network_2024))
                | None \<Rightarrow> map_option (\<lambda>s. s + IntervalMilliseconds millisecond_environment
                                               (Some (DefaultCaExpiration millisecond_environment)))
                            (net_starttime network_2024)) = Some t
            \<and> \<bar>t\<bar> \<le> 8640000000000000)"
    by (simp add: idle_client_def store_2024_def request_def network_2024_def
          millisecond_environment_def)
  note both = processNewNetworks_creates_request
         [OF idle found, where env = millisecond_environment and now = 1700000000000
            and new_id = "''req-new''", folded p_def]
  have ok: "caught p = None"
    using both [THEN conjunct2] sound by (simp only: p_def) blast
  from both [THEN conjunct1, THEN mp, OF ok]
  obtain req where
    "CertificateRequests (committed (client_after p))
       = CertificateRequests (committed (idle_client store_2024)) @ [req]"
    and "req_requesttype req = Some vanCA"
    and "req_applicationnetwork req = Some (net_id network_2024)"
    and "req_createdtime req = Some 1700000000000"
    and "req_requesttime req = net_starttime network_2024"
    and "req_expiretime req =
        (case net_endtime network_2024 of
           Some e \<Rightarrow> Some (e + IntervalMilliseconds millisecond_environment (net_deletedelay network_2024))
         | None \<Rightarrow> map_option (\<lambda>s. s + IntervalMilliseconds millisecond_environment
                                        (Some (DefaultCaExpiration millisecond_environment)))
                     (net_starttime network_2024))"
    and "ApplicationNetworks (committed (client_after p))
       = map (\<lambda>n. if net_id n = net_id network_2024
                   then n\<lparr>net_operstatus := Some ''cert_request_created''\<rparr> else n)
            (ApplicationNetworks (committed (idle_client store_2024)))"
    by blast
  then have "(\<exists>req.
        CertificateRequests (committed (client_after p)) = CertificateRequests store_2024 @ [req]
        \<and> req_requesttype req = Some vanCA
        \<and> req_applicationnetwork req = Some ''net-2024''
        \<and> req_createdtime req = Some 1700000000000
        \<and> req_requesttime req = Some 1704067200000
        \<and> req_expiretime req = Some 1735603200000)
     \<and> ApplicationNetworks (committed (client_after p))
        = [network_2024\<lparr>net_operstatus := Some ''cert_request_created''\<rparr>]"
    by (simp add: millisecond_environment_def network_2024_def idle_client_def store_2024_def)
  then show ?thesis
    using found ok unfolding p_def by simp
qed

section \<open>Request fulfillment\<close>

lemma selected_requests_eq:
  "selected_requests now d
     = take 1 (sort_key created_key (filter (eligible now) (CertificateRequests d)))"
  by (simp add: selected_requests_def select_certificate_request_def)

lemma selected_requests_first:
  assumes "r \<in> set (selected_requests now d)"
  shows "r \<in> set (CertificateRequests d) \<and> eligible now r
         \<and> (\<forall>r' \<in> set (CertificateRequests d). eligible now r' \<longrightarrow> created_key r \<le> created_key r')"
proof -
  define xs where "xs = sort_key created_key (filter (eligible now) (CertificateRequests d))"
  have sel: "selected_requests now d = take 1 xs"
    by (simp add: selected_requests_eq xs_def)
  obtain ys where xs: "xs = r # ys"
    using assms unfolding sel by (cases xs) auto
  have members: "set xs = {x \<in> set (CertificateRequests d). eligible now x}"
    by (simp add: xs_def)
  have "sorted (map created_key xs)"
    by (simp add: xs_def)
  then have least: "\<forall>y \<in> set xs. created_key r \<le> created_key y"
    by (auto simp: xs)
  have "r \<in> set xs"
    by (simp add: xs)
  then show ?thesis
    using members least by auto
qed

lemma selected_requests_empty:
  "selected_requests now d = [] \<longleftrightarrow> (\<forall>r \<in> set (CertificateRequests d). \<not> eligible now r)"
proof -
  have "selected_requests now d = []
          \<longleftrightarrow> sort_key created_key (filter (eligible now) (CertificateRequests d)) = []"
    by (simp add: selected_requests_eq)
  also have "\<dots> \<longleftrightarrow> filter (eligible now) (CertificateRequests d) = []"
    by (metis length_0_conv length_sort)
  also have "\<dots> \<longleftrightarrow> (\<forall>r \<in> set (CertificateRequests d). \<not> eligible now r)"
    by (simp add: filter_empty_conv)
  finally show ?thesis .
qed

lemma created_key_le:
  "created_key r \<le> created_key r' \<Longrightarrow> req_createdtime r' = Some b \<Longrightarrow>
   \<exists>a. req_createdtime r = Some a \<and> a \<le> b"
  by (auto simp: created_key_def split: option.splits)

text \<open>
  A pass of the fulfillment worker on an idle client, with no query failing: with one
  row selected, and with none.
\<close>

lemma processCertificateRequests_on_selected:
  assumes "txn c = None" and "faults c = []" and "selected_requests now (committed c) = [r]"
  shows "processCertificateRequests now c =
     \<lparr> client_after = c\<lparr> committed := (committed c)\<lparr>
           CertificateRequests :=
             map (\<lambda>x. if req_id x = req_id r then x\<lparr>req_processing := Some True\<rparr> else x)
               (CertificateRequests (committed c))\<rparr>,
         txn := None, issued := issued c + 4, leased := False\<rparr>,
       reschedule_delay = 0, caught = None, uncaught = None \<rparr>"
  using assms
  by (simp add: processCertificateRequests_def worker_pass_def processCertificateRequests_try_def
        action_defs selected_requests_def select_certificate_request_def
        update_request_processing_def Let_def)

lemma unmarked_row_was_there:
  assumes "x \<in> set (map (\<lambda>x. if req_id x = i then x\<lparr>req_processing := Some True\<rparr> else x) rows)"
    and "req_processing x = Some False"
  shows "x \<in> set rows \<and> req_id x \<noteq> i"
  using assms by (auto split: if_splits)

text \<open>
  C2: on every pass, the \<open>SELECT\<close> of \<open>processCertificateRequests\<close> returns at most one
  row, and none only when no row is eligible. A row it returns is a row of the table
  with \<open>RequestTime <= now\<close> and \<open>Processing = false\<close>, and no eligible row sorts before
  it by \<open>CreatedTime\<close> (\<open>NULL\<close> last): every eligible row with a \<open>CreatedTime\<close> has one at
  least as late as the selected row's. A row whose \<open>RequestTime\<close> is in the future is
  never returned, whatever its \<open>CreatedTime\<close>. Across successive passes: when a pass at
  \<open>now\<close> (idle client, no query failing) selected \<open>r1\<close> and the next pass selects
  \<open>r2\<close>, and \<open>r2\<close> was eligible already at \<open>now\<close>, then \<open>r2\<close> is another request of the
  table and \<open>r1\<close> does not sort after it: selection follows creation order.
\<close>

theorem fulfillment_selects_oldest_eligible:
  fixes c :: "'iv conn"
  shows
    "length (selected_requests now (committed c)) \<le> 1
     \<and> (selected_requests now (committed c) = []
          \<longleftrightarrow> (\<forall>r \<in> set (CertificateRequests (committed c)). \<not> eligible now r))
     \<and> (\<forall>r \<in> set (selected_requests now (committed c)).
          r \<in> set (CertificateRequests (committed c))
          \<and> (\<exists>t. req_requesttime r = Some t \<and> t \<le> now)
          \<and> req_processing r = Some False
          \<and> (\<forall>r' \<in> set (CertificateRequests (committed c)). eligible now r' \<longrightarrow>
                created_key r \<le> created_key r'
                \<and> (\<forall>b. req_createdtime r' = Some b \<longrightarrow>
                      (\<exists>a. req_createdtime r = Some a \<and> a \<le> b))))
     \<and> (\<forall>r' \<in> set (CertificateRequests (committed c)).
          (\<exists>t. req_requesttime r' = Some t \<and> now < t) \<longrightarrow>
            r' \<notin> set (selected_requests now (committed c)))
     \<and> (\<forall>r1 r2 later.
          txn c = None \<and> faults c = []
          \<and> selected_requests now (committed c) = [r1]
          \<and> selected_requests later
               (committed (client_after (processCertificateRequests now c))) = [r2]
          \<and> eligible now r2
          \<longrightarrow> r2 \<in> set (CertificateRequests (committed c))
              \<and> req_id r2 \<noteq> req_id r1
              \<and> created_key r1 \<le> created_key r2)"
proof (intro conjI ballI allI impI)
  show "length (selected_requests now (committed c)) \<le> 1"
    by (simp add: selected_requests_eq)
  show "selected_requests now (committed c) = []
          \<longleftrightarrow> (\<forall>r \<in> set (CertificateRequests (committed c)). \<not> eligible now r)"
    by (rule selected_requests_empty)
next
  fix r assume r: "r \<in> set (selected_requests now (committed c))"
  note first = selected_requests_first [OF r]
  show "r \<in> set (CertificateRequests (committed c))"
    using first by simp
  show "\<exists>t. req_requesttime r = Some t \<and> t \<le> now"
    using first by (cases "req_requesttime r") (simp_all add: eligible_def)
  show "req_processing r = Some False"
    using first by (simp add: eligible_def)
  fix r' assume r': "r' \<in> set (CertificateRequests (committed c))" "eligible now r'"
  from first have "\<forall>r' \<in> set (CertificateRequests (committed c)).
                     eligible now r' \<longrightarrow> created_key r \<le> created_key r'"
    by simp
  then show le: "created_key r \<le> created_key r'"
    using r' by simp
  fix b assume "req_createdtime r' = Some b"
  then show "\<exists>a. req_createdtime r = Some a \<and> a \<le> b"
    by (rule created_key_le [OF le])
next
  fix r' assume "r' \<in> set (CertificateRequests (committed c))"
    and future: "\<exists>t. req_requesttime r' = Some t \<and> now < t"
  show "r' \<notin> set (selected_requests now (committed c))"
  proof
    assume "r' \<in> set (selected_requests now (committed c))"
    from selected_requests_first [OF this] have "eligible now r'"
      by simp
    then show False
      using future by (auto simp: eligible_def)
  qed
next
  fix r1 r2 later
  assume run: "txn c = None \<and> faults c = []
          \<and> selected_requests now (committed c) = [r1]
          \<and> selected_requests later
               (committed (client_after (processCertificateRequests now c))) = [r2]
          \<and> eligible now r2"
  then have idle: "txn c = None" and sound: "faults c = []"
    and first: "selected_requests now (committed c) = [r1]"
    and second: "selected_requests later
               (committed (client_after (processCertificateRequests now c))) = [r2]"
    and always: "eligible now r2"
    by simp_all
  have pass: "CertificateRequests (committed (client_after (processCertificateRequests now c)))
      = map (\<lambda>x. if req_id x = req_id r1 then x\<lparr>req_processing := Some True\<rparr> else x)
          (CertificateRequests (committed c))"
    by (simp add: processCertificateRequests_on_selected [OF idle sound first])
  have "r2 \<in> set (selected_requests later
               (committed (client_after (processCertificateRequests now c))))"
    by (simp add: second)
  from selected_requests_first [OF this]
  have "r2 \<in> set (map (\<lambda>x. if req_id x = req_id r1 then x\<lparr>req_processing := Some True\<rparr> else x)
                      (CertificateRequests (committed c)))"
    and "req_processing r2 = Some False"
    by (simp_all add: pass eligible_def)
  from unmarked_row_was_there [OF this]
  have old: "r2 \<in> set (CertificateRequests (committed c))" and other: "req_id r2 \<noteq> req_id r1"
    by simp_all
  have "r1 \<in> set (selected_requests now (committed c))"
    by (simp add: first)
  from selected_requests_first [OF this]
  have "\<forall>r' \<in> set (CertificateRequests (committed c)).
          eligible now r' \<longrightarrow> created_key r1 \<le> created_key r'"
    by simp
  then have "created_key r1 \<le> created_key r2"
    using old always by simp
  with old other show "r2 \<in> set (CertificateRequests (committed c))"
    and "req_id r2 \<noteq> req_id r1" and "created_key r1 \<le> created_key r2"
    by simp_all
qed

theorem fulfillment_selects_oldest_eligible_witness:
  "selected_requests 100 (committed (idle_client store_2024)) = [request ''req-a'' 10 5]
   \<and> request ''req-future'' 1 1000 \<notin> set (selected_requests 100 (committed (idle_client store_2024)))
   \<and> eligible 100 (request ''req-b'' 20 5)
   \<and> selected_requests 100
        (committed (client_after (processCertificateRequests 100 (idle_client store_2024))))
      = [request ''req-b'' 20 5]
   \<and> created_key (request ''req-a'' 10 5) \<le> created_key (request ''req-b'' 20 5)"
proof -
  have idle: "txn (idle_client store_2024) = None" and sound: "faults (idle_client store_2024) = []"
    by (simp_all add: idle_client_def)
  have first: "selected_requests 100 (committed (idle_client store_2024)) = [request ''req-a'' 10 5]"
    by (simp add: selected_requests_eq idle_client_def store_2024_def request_def eligible_def
          created_key_def)
  have always: "eligible 100 (request ''req-b'' 20 5)"
    by (simp add: eligible_def request_def)
  have pass: "CertificateRequests
        (committed (client_after (processCertificateRequests 100 (idle_client store_2024))))
      = [request ''req-b'' 20 5, request ''req-future'' 1 1000,
         (request ''req-a'' 10 5)\<lparr>req_processing := Some True\<rparr>]"
    by (simp add: processCertificateRequests_on_selected [OF idle sound first])
       (simp add: idle_client_def store_2024_def request_def)
  have second: "selected_requests 100
        (committed (client_after (processCertificateRequests 100 (idle_client store_2024))))
      = [request ''req-b'' 20 5]"
    by (simp add: selected_requests_eq pass) (simp add: request_def eligible_def created_key_def)
  have future: "request ''req-future'' 1 1000
                  \<in> set (CertificateRequests (committed (idle_client store_2024)))"
    and later: "\<exists>t. req_requesttime (request ''req-future'' 1 1000) = Some t \<and> 100 < t"
    by (simp_all add: idle_client_def store_2024_def request_def)
  from fulfillment_selects_oldest_eligible [of 100 "idle_client store_2024"]
  have "request ''req-future'' 1 1000 \<notin> set (selected_requests 100 (committed (idle_client store_2024)))"
    and "created_key (request ''req-a'' 10 5) \<le> created_key (request ''req-b'' 20 5)"
    using idle sound first second always future later by blast+
  then show ?thesis
    using first second always by simp
qed

text \<open>
  C3, as stated, fails: the pass only marks the request. On the store \<open>store_2024\<close> the
  pass at time 100 selects the request created at 10 and commits; afterwards that
  request is still a row of the table (with \<open>Processing = true\<close>), the table of
  certificates is still empty, and the request's subject, the network, still has no
  certificate authority.
\<close>

theorem fulfillment_leaves_request_and_issues_nothing:
  "selected_requests 100 (committed (idle_client store_2024)) = [request ''req-a'' 10 5]
   \<and> caught (processCertificateRequests 100 (idle_client store_2024)) = None
   \<and> CertificateRequests (committed (client_after
        (processCertificateRequests 100 (idle_client store_2024))))
      = [request ''req-b'' 20 5, request ''req-future'' 1 1000,
         (request ''req-a'' 10 5)\<lparr>req_processing := Some True\<rparr>]
   \<and> TlsCertificates (committed (client_after
        (processCertificateRequests 100 (idle_client store_2024)))) = []
   \<and> map net_certificateauthority (ApplicationNetworks (committed (client_after
        (processCertificateRequests 100 (idle_client store_2024))))) = [None]"
proof -
  have idle: "txn (idle_client store_2024) = None" and sound: "faults (idle_client store_2024) = []"
    by (simp_all add: idle_client_def)
  have first: "selected_requests 100 (committed (idle_client store_2024)) = [request ''req-a'' 10 5]"
    by (simp add: selected_requests_eq idle_client_def store_2024_def request_def eligible_def
          created_key_def)
  show ?thesis
    by (simp add: first processCertificateRequests_on_selected [OF idle sound first])
       (simp add: idle_client_def store_2024_def request_def network_2024_def)
qed

text \<open>
  C3, amended: a pass of \<open>processCertificateRequests\<close> on an idle client, in which no
  query fails, that selects the request \<open>r\<close> commits exactly this: every request with
  \<open>r\<close>'s \<open>Id\<close> has \<open>Processing = true\<close>, and nothing else changes. The request row is
  still there, no TlsCertificate row is inserted, and no other table (the subject's
  among them) is touched: generating the certificate, attaching it and deleting the
  request are not done by the pass.
\<close>

theorem fulfillment_marks_and_keeps_request:
  assumes idle: "txn c = None" and sound: "faults c = []"
    and selected: "selected_requests now (committed c) = [r]"
  shows
    "caught (processCertificateRequests now c) = None
     \<and> uncaught (processCertificateRequests now c) = None
     \<and> CertificateRequests (committed (client_after (processCertificateRequests now c)))
         = map (\<lambda>x. if req_id x = req_id r then x\<lparr>req_processing := Some True\<rparr> else x)
             (CertificateRequests (committed c))
     \<and> r\<lparr>req_processing := Some True\<rparr>
         \<in> set (CertificateRequests (committed (client_after (processCertificateRequests now c))))
     \<and> TlsCertificates (committed (client_after (processCertificateRequests now c)))
         = TlsCertificates (committed c)
     \<and> ApplicationNetworks (committed (client_after (processCertificateRequests now c)))
         = ApplicationNetworks (committed c)
     \<and> InteriorSites (committed (client_after (processCertificateRequests now c)))
         = InteriorSites (committed c)
     \<and> BackboneAccessPoints (committed (client_after (processCertificateRequests now c)))
         = BackboneAccessPoints (committed c)
     \<and> MemberInvitations (committed (client_after (processCertificateRequests now c)))
         = MemberInvitations (committed c)"
proof -
  have "r \<in> set (selected_requests now (committed c))"
    by (simp add: selected)
  then have "r \<in> set (CertificateRequests (committed c))"
    using selected_requests_first by blast
  then have "r\<lparr>req_processing := Some True\<rparr>
          \<in> (\<lambda>x. if req_id x = req_id r then x\<lparr>req_processing := Some True\<rparr> else x)
             ` set (CertificateRequests (committed c))"
    by (rule rev_image_eqI) simp
  then show ?thesis
    by (simp add: processCertificateRequests_on_selected [OF idle sound selected])
qed

theorem fulfillment_marks_and_keeps_request_witness:
  "selected_requests 100 (committed (idle_client store_2024)) = [request ''req-a'' 10 5]
   \<and> (request ''req-a'' 10 5)\<lparr>req_processing := Some True\<rparr>
        \<in> set (CertificateRequests (committed (client_after
                  (processCertificateRequests 100 (idle_client store_2024)))))
   \<and> TlsCertificates (committed (client_after
        (processCertificateRequests 100 (idle_client store_2024)))) = []"
proof -
  have idle: "txn (idle_client store_2024) = None" and sound: "faults (idle_client store_2024) = []"
    by (simp_all add: idle_client_def)
  have first: "selected_requests 100 (committed (idle_client store_2024)) = [request ''req-a'' 10 5]"
    by (simp add: selected_requests_eq idle_client_def store_2024_def request_def eligible_def
          created_key_def)
  from fulfillment_marks_and_keeps_request [OF idle sound first]
  show ?thesis
    using first by (simp add: idle_client_def store_2024_def)
qed

section \<open>Rollback\<close>

text \<open>
  C4: for either worker, on any client and whichever queries fail: if an error is
  thrown inside the pass (the \<open>catch\<close> block runs), the committed rows after the pass
  are exactly the committed rows before it, and when the \<open>ROLLBACK\<close> itself returned, no
  transaction with pending changes is left on the client. In particular, when the
  fourth query of a pass that found a new network fails, an error is thrown, the
  network row is unchanged and no request with the new identifier exists; and when
  the request's expiration is a valid date, that query is the \<open>UPDATE\<close> of the network's
  status, failing after the \<open>INSERT\<close> of the request was executed (five queries are
  issued in all, the \<open>ROLLBACK\<close> included).
\<close>

theorem worker_pass_is_all_or_nothing:
  "(caught (processNewNetworks env now new_id c) \<noteq> None \<longrightarrow>
      committed (client_after (processNewNetworks env now new_id c)) = committed c
      \<and> (uncaught (processNewNetworks env now new_id c) = None \<longrightarrow>
            txn (client_after (processNewNetworks env now new_id c)) = None))
   \<and> (caught (processCertificateRequests now c) \<noteq> None \<longrightarrow>
      committed (client_after (processCertificateRequests now c)) = committed c
      \<and> (uncaught (processCertificateRequests now c) = None \<longrightarrow>
            txn (client_after (processCertificateRequests now c)) = None))
   \<and> (txn c = None \<and> faults c = [issued c + 3]
        \<and> filter (\<lambda>n. net_operstatus n = Some ''new'') (ApplicationNetworks (committed c)) = row # rest
        \<and> new_id \<notin> req_id ` set (CertificateRequests (committed c))
        \<and> (net_endtime row \<noteq> None \<or> net_starttime row \<noteq> None)
      \<longrightarrow> caught (processNewNetworks env now new_id c) \<noteq> None
          \<and> committed (client_after (processNewNetworks env now new_id c)) = committed c
          \<and> row \<in> set (ApplicationNetworks
                          (committed (client_after (processNewNetworks env now new_id c))))
          \<and> new_id \<notin> req_id ` set (CertificateRequests
                          (committed (client_after (processNewNetworks env now new_id c))))
          \<and> ((\<exists>t. expire_time_of env row = Inr (Some t)) \<longrightarrow>
                caught (processNewNetworks env now new_id c) = Some QueryFailed
                \<and> issued (client_after (processNewNetworks env now new_id c)) = issued c + 5))"
proof (intro conjI)
  show "caught (processNewNetworks env now new_id c) \<noteq> None \<longrightarrow>
      committed (client_after (processNewNetworks env now new_id c)) = committed c
      \<and> (uncaught (processNewNetworks env now new_id c) = None \<longrightarrow>
            txn (client_after (processNewNetworks env now new_id c)) = None)"
  proof
    assume "caught (processNewNetworks env now new_id c) \<noteq> None"
    then have "caught (worker_pass (processNewNetworks_try env now new_id) c) \<noteq> None"
      by (simp add: processNewNetworks_def)
    from worker_pass_rolls_back [OF processNewNetworks_try_keeps_committed this]
    show "committed (client_after (processNewNetworks env now new_id c)) = committed c
        \<and> (uncaught (processNewNetworks env now new_id c) = None \<longrightarrow>
              txn (client_after (processNewNetworks env now new_id c)) = None)"
      by (simp add: processNewNetworks_def)
  qed
  show "caught (processCertificateRequests now c) \<noteq> None \<longrightarrow>
      committed (client_after (processCertificateRequests now c)) = committed c
      \<and> (uncaught (processCertificateRequests now c) = None \<longrightarrow>
            txn (client_after (processCertificateRequests now c)) = None)"
  proof
    assume "caught (processCertificateRequests now c) \<noteq> None"
    then have "caught (worker_pass (processCertificateRequests_try now) c) \<noteq> None"
      by (simp add: processCertificateRequests_def)
    from worker_pass_rolls_back [OF processCertificateRequests_try_keeps_committed this]
    show "committed (client_after (processCertificateRequests now c)) = committed c
        \<and> (uncaught (processCertificateRequests now c) = None \<longrightarrow>
              txn (client_after (processCertificateRequests now c)) = None)"
      by (simp add: processCertificateRequests_def)
  qed
  show "txn c = None \<and> faults c = [issued c + 3]
        \<and> filter (\<lambda>n. net_operstatus n = Some ''new'') (ApplicationNetworks (committed c)) = row # rest
        \<and> new_id \<notin> req_id ` set (CertificateRequests (committed c))
        \<and> (net_endtime row \<noteq> None \<or> net_starttime row \<noteq> None)
      \<longrightarrow> caught (processNewNetworks env now new_id c) \<noteq> None
          \<and> committed (client_after (processNewNetworks env now new_id c)) = committed c
          \<and> row \<in> set (ApplicationNetworks
                          (committed (client_after (processNewNetworks env now new_id c))))
          \<and> new_id \<notin> req_id ` set (CertificateRequests
                          (committed (client_after (processNewNetworks env now new_id c))))
          \<and> ((\<exists>t. expire_time_of env row = Inr (Some t)) \<longrightarrow>
                caught (processNewNetworks env now new_id c) = Some QueryFailed
                \<and> issued (client_after (processNewNetworks env now new_id c)) = issued c + 5)"
  proof
    assume scenario: "txn c = None \<and> faults c = [issued c + 3]
        \<and> filter (\<lambda>n. net_operstatus n = Some ''new'') (ApplicationNetworks (committed c)) = row # rest
        \<and> new_id \<notin> req_id ` set (CertificateRequests (committed c))
        \<and> (net_endtime row \<noteq> None \<or> net_starttime row \<noteq> None)"
    then obtain d where dated: "expire_time_of env row = Inr d"
      using expire_time_of_dated [of row env] by blast
    have thrown: "caught (processNewNetworks env now new_id c) \<noteq> None"
      using scenario dated by (cases d) (simp_all add: intake_defs)
    then have "caught (worker_pass (processNewNetworks_try env now new_id) c) \<noteq> None"
      by (simp add: processNewNetworks_def)
    from worker_pass_rolls_back [OF processNewNetworks_try_keeps_committed this]
    have same: "committed (client_after (processNewNetworks env now new_id c)) = committed c"
      by (simp add: processNewNetworks_def)
    from scenario
    have "filter (\<lambda>n. net_operstatus n = Some ''new'') (ApplicationNetworks (committed c)) = row # rest"
      by simp
    from in_set_filter_head [OF this]
    have member: "row \<in> set (ApplicationNetworks (committed c))"
      by simp
    have update_fails: "caught (processNewNetworks env now new_id c) = Some QueryFailed
                \<and> issued (client_after (processNewNetworks env now new_id c)) = issued c + 5"
      if "\<exists>t. expire_time_of env row = Inr (Some t)"
    proof -
      from that obtain t where valid: "expire_time_of env row = Inr (Some t)"
        by blast
      have "processNewNetworks env now new_id c =
         \<lparr> client_after = c\<lparr>txn := None, issued := issued c + 5, leased := False\<rparr>,
           reschedule_delay = 10000, caught = Some QueryFailed, uncaught = None \<rparr>"
        using scenario valid by (simp add: intake_defs)
      then show ?thesis
        by simp
    qed
    show "caught (processNewNetworks env now new_id c) \<noteq> None
          \<and> committed (client_after (processNewNetworks env now new_id c)) = committed c
          \<and> row \<in> set (ApplicationNetworks
                          (committed (client_after (processNewNetworks env now new_id c))))
          \<and> new_id \<notin> req_id ` set (CertificateRequests
                          (committed (client_after (processNewNetworks env now new_id c))))
          \<and> ((\<exists>t. expire_time_of env row = Inr (Some t)) \<longrightarrow>
                caught (processNewNetworks env now new_id c) = Some QueryFailed
                \<and> issued (client_after (processNewNetworks env now new_id c)) = issued c + 5)"
      using thrown same member scenario update_fails by simp
  qed
qed

theorem worker_pass_is_all_or_nothing_witness:
  "caught (processNewNetworks millisecond_environment 1700000000000 ''req-new''
             ((idle_client store_2024)\<lparr>faults := [3]\<rparr>)) = Some QueryFailed
   \<and> issued (client_after (processNewNetworks millisecond_environment 1700000000000 ''req-new''
             ((idle_client store_2024)\<lparr>faults := [3]\<rparr>))) = 5
   \<and> committed (client_after (processNewNetworks millisecond_environment 1700000000000 ''req-new''
             ((idle_client store_2024)\<lparr>faults := [3]\<rparr>))) = store_2024
   \<and> txn (client_after (processNewNetworks millisecond_environment 1700000000000 ''req-new''
             ((idle_client store_2024)\<lparr>faults := [3]\<rparr>))) = None"
proof -
  define p where
    "p = processNewNetworks millisecond_environment 1700000000000 ''req-new''
           ((idle_client store_2024)\<lparr>faults := [3]\<rparr>)"
  have scenario: "txn ((idle_client store_2024)\<lparr>faults := [3]\<rparr>) = None
      \<and> faults ((idle_client store_2024)\<lparr>faults := [3]\<rparr>)
          = [issued ((idle_client store_2024)\<lparr>faults := [3]\<rparr>) + 3]
      \<and> filter (\<lambda>n. net_operstatus n = Some ''new'')
          (ApplicationNetworks (committed ((idle_client store_2024)\<lparr>faults := [3]\<rparr>)))
          = network_2024 # []
      \<and> ''req-new'' \<notin> req_id ` set (CertificateRequests
                                         (committed ((idle_client store_2024)\<lparr>faults := [3]\<rparr>)))
      \<and> (net_endtime network_2024 \<noteq> None \<or> net_starttime network_2024 \<noteq> None)"
    by (simp add: idle_client_def store_2024_def network_2024_def request_def)
  have valid: "\<exists>t. expire_time_of millisecond_environment network_2024 = Inr (Some t)"
    by (simp add: expire_time_of_def Date_setTime_def millisecond_environment_def network_2024_def)
  note all = worker_pass_is_all_or_nothing
         [where c = "(idle_client store_2024)\<lparr>faults := [3]\<rparr>" and row = network_2024
            and rest = "[]" and new_id = "''req-new''" and env = millisecond_environment
            and now = 1700000000000, folded p_def]
  from all [THEN conjunct2, THEN conjunct2, THEN mp, OF scenario]
  have thrown: "caught p \<noteq> None"
    and same: "committed (client_after p) = committed ((idle_client store_2024)\<lparr>faults := [3]\<rparr>)"
    and update_fails: "(\<exists>t. expire_time_of millisecond_environment network_2024 = Inr (Some t)) \<longrightarrow>
           caught p = Some QueryFailed
           \<and> issued (client_after p) = issued ((idle_client store_2024)\<lparr>faults := [3]\<rparr>) + 5"
    by simp_all
  from update_fails valid
  have failed: "caught p = Some QueryFailed"
    and count: "issued (client_after p) = issued ((idle_client store_2024)\<lparr>faults := [3]\<rparr>) + 5"
    by simp_all
  have "uncaught p = None"
    unfolding p_def
    by (simp add: intake_defs expire_time_of_def Date_setTime_def
          idle_client_def store_2024_def network_2024_def request_def millisecond_environment_def)
  with all [THEN conjunct1, THEN mp, OF thrown]
  have "txn (client_after p) = None"
    by simp
  then show ?thesis
    using failed count same unfolding p_def by (simp add: idle_client_def)
qed

section \<open>Adding a host to an access point\<close>

lemma access_column_of_key_None:
  "access_column_of_key key = None \<longleftrightarrow> key \<notin> {''skx-manage'', ''skx-member'', ''skx-peer''}"
  by (simp add: access_column_of_key_def)

text \<open>
  The \<open>try\<close> block keeps whatever its queries keep: \<open>I\<close> holds between the queries,
  \<open>E\<close> when one has thrown.
\<close>

lemma addHostToAccessPoint_try_ensures:
  assumes begins: "ensures P (client_transaction BEGIN) (\<lambda>_. I) E"
    and select: "\<And>ref. ensures I (client_query (select_access ref bsid)) (\<lambda>_. I) E"
    and update: "\<And>a. ensures I (client_query (update_access_point hostname port a)) (\<lambda>_. I) E"
    and commits: "ensures I (client_transaction COMMIT) R E"
    and thrown: "\<And>s. I s \<Longrightarrow> E s"
  shows "ensures P (addHostToAccessPoint_try bsid key hostname port) R E"
  unfolding addHostToAccessPoint_try_def
proof (rule ensures_andThen [OF begins], rule ensures_andThen [where Q = "\<lambda>_. I"])
  have throws: "ensures I (throw e) Q E" for e and Q :: "'b \<Rightarrow> 'a conn \<Rightarrow> bool"
    using thrown by (simp add: ensures_def throw_def)
  have succeeds: "ensures I (succeed a) (\<lambda>_. I) E" for a :: access_column
    by (simp add: ensures_def succeed_def)
  show "ensures I
          (case access_column_of_key key of
             None \<Rightarrow> throw (InvalidIngressKey key) | Some ref \<Rightarrow> succeed ref)
          (\<lambda>_. I) E"
    by (cases "access_column_of_key key") (simp_all add: throws succeeds)
  fix ref
  show "ensures I
          (andThen (client_query (select_access ref bsid))
             (\<lambda>result.
                 case result of
                   [access] \<Rightarrow>
                     if truthy (ap_hostname (snd access)) then throw (AlreadyHasHostname (fst access))
                     else if ap_lifecycle (snd access) \<noteq> Some ''partial''
                     then throw (UnexpectedLifecycle (fst access) (ap_lifecycle (snd access)))
                     else andThen (client_query (update_access_point hostname port (fst access)))
                            (\<lambda>_. client_transaction COMMIT)
                 | _ \<Rightarrow> throw (AccessPointNotFound bsid)))
          R E"
  proof (rule ensures_andThen [OF select])
    fix result :: "(uuid \<times> BackboneAccessPoint) list"
    have updates: "ensures I
            (andThen (client_query (update_access_point hostname port a))
               (\<lambda>_. client_transaction COMMIT)) R E" for a
      by (rule ensures_andThen [OF update commits])
    show "ensures I
            (case result of
               [access] \<Rightarrow>
                 if truthy (ap_hostname (snd access)) then throw (AlreadyHasHostname (fst access))
                 else if ap_lifecycle (snd access) \<noteq> Some ''partial''
                 then throw (UnexpectedLifecycle (fst access) (ap_lifecycle (snd access)))
                 else andThen (client_query (update_access_point hostname port (fst access)))
                        (\<lambda>_. client_transaction COMMIT)
             | _ \<Rightarrow> throw (AccessPointNotFound bsid))
            R E"
      by (simp add: throws updates split: list.splits)
  qed
qed

lemma addHostToAccessPoint_try_keeps_committed:
  "ensures (\<lambda>c. committed c = d) (addHostToAccessPoint_try bsid key hostname port)
     (\<lambda>_ _. True) (\<lambda>c. committed c = d)"
  by (rule addHostToAccessPoint_try_ensures
        [OF BEGIN_keeps_committed query_keeps_committed query_keeps_committed
            COMMIT_keeps_committed_when_thrown])
     (simp add: inside_def)

lemma query_keeps_faults:
  "ensures (\<lambda>c. faults c = f) (client_query stmt) (\<lambda>_ c. faults c = f) (\<lambda>c. faults c = f)"
  by (rule ensuresI)
     (auto simp: client_query_def Let_def write_rows_def split: if_splits sum.splits option.splits)

lemma transaction_keeps_faults:
  "ensures (\<lambda>c. faults c = f) (client_transaction cmd) (\<lambda>_ c. faults c = f) (\<lambda>c. faults c = f)"
  by (rule ensuresI)
     (auto simp: client_transaction_def Let_def split: if_splits transaction_command.splits)

lemma addHostToAccessPoint_try_keeps_faults:
  "ensures (\<lambda>c. faults c = f) (addHostToAccessPoint_try bsid key hostname port)
     (\<lambda>_ c. faults c = f) (\<lambda>c. faults c = f)"
  by (rule addHostToAccessPoint_try_ensures
        [OF transaction_keeps_faults query_keeps_faults query_keeps_faults
            transaction_keeps_faults])

text \<open>Unless it returns 1, the function leaves the committed rows alone.\<close>

lemma addHostToAccessPoint_rolls_back:
  assumes "fst (addHostToAccessPoint bsid key hostname port c) \<noteq> Inr 1"
  shows "committed (snd (addHostToAccessPoint bsid key hostname port c)) = committed c"
proof -
  obtain r c' where run: "addHostToAccessPoint_try bsid key hostname port (ClientFromPool c) = (r, c')"
    by (cases "addHostToAccessPoint_try bsid key hostname port (ClientFromPool c)")
  show ?thesis
  proof (cases r)
    case (Inl e)
    have "committed c' = committed c"
      by (rule ensures_thrown [OF addHostToAccessPoint_try_keeps_committed _ run [unfolded Inl]])
         (simp add: ClientFromPool_def)
    then show ?thesis
      using run Inl ROLLBACK_keeps_committed [of c']
      by (cases "client_transaction ROLLBACK c'")
         (auto simp: addHostToAccessPoint_def release_def split: sum.splits)
  next
    case (Inr a)
    then show ?thesis
      using assms run by (simp add: addHostToAccessPoint_def)
  qed
qed

lemma addHostToAccessPoint_releases:
  "leased (snd (addHostToAccessPoint bsid key hostname port c)) = False"
  by (simp add: addHostToAccessPoint_def release_def split: prod.splits sum.splits)

lemma access_rows_eq:
  "access_rows ref bsid d =
     [(ap_id ap, ap). s \<leftarrow> InteriorSites d, ap \<leftarrow> BackboneAccessPoints d,
        site_id s = bsid \<and> column_value ref s = Some (ap_id ap)]"
  by (simp add: access_rows_def select_access_def)

text \<open>When the \<open>try\<close> block returns, every check has passed and the update is committed.\<close>

lemma addHostToAccessPoint_try_returns:
  assumes idle: "txn c = None"
    and returns: "addHostToAccessPoint_try bsid key hostname port c = (Inr u, c')"
  shows "\<exists>ref a ap.
      access_column_of_key key = Some ref
      \<and> access_rows ref bsid (committed c) = [(a, ap)]
      \<and> \<not> truthy (ap_hostname ap)
      \<and> ap_lifecycle ap = Some ''partial''
      \<and> committed c' = (committed c)\<lparr>BackboneAccessPoints :=
           map (\<lambda>x. if ap_id x = a
                      then x\<lparr>ap_hostname := hostname, ap_port := port, ap_lifecycle := Some ''new''\<rparr>
                      else x)
             (BackboneAccessPoints (committed c))\<rparr>"
proof (cases "issued c \<in> set (faults c)")
  case True
  then show ?thesis
    using returns by (simp add: addHostToAccessPoint_try_def andThen_def client_transaction_def Let_def)
next
  case begun: False
  show ?thesis
  proof (cases "access_column_of_key key")
    case None
    then show ?thesis
      using returns begun
      by (simp add: addHostToAccessPoint_try_def andThen_def throw_def client_transaction_def Let_def)
  next
    case (Some ref)
    show ?thesis
    proof (cases "Suc (issued c) \<in> set (faults c)")
      case True
      then show ?thesis
        using returns begun Some
        by (simp add: addHostToAccessPoint_try_def action_defs Let_def)
    next
      case selected: False
      define rows where "rows = access_rows ref bsid (committed c)"
      have rows: "select_access ref bsid (committed c) = Inr (rows, committed c)"
        by (simp add: rows_def access_rows_def select_access_def)
      show ?thesis
      proof (cases rows)
        case Nil
        then show ?thesis
          using returns begun Some selected idle rows
          by (simp add: addHostToAccessPoint_try_def action_defs Let_def)
      next
        case (Cons row more)
        show ?thesis
        proof (cases more)
          case more: (Cons row' more')
          then show ?thesis
            using returns begun Some selected idle rows Cons
            by (simp add: addHostToAccessPoint_try_def action_defs Let_def)
        next
          case Nil
          obtain a ap where row: "row = (a, ap)"
            by (cases row)
          have single: "rows = [(a, ap)]"
            by (simp add: Cons Nil row)
          show ?thesis
          proof (cases "truthy (ap_hostname ap) \<or> ap_lifecycle ap \<noteq> Some ''partial''")
            case True
            then show ?thesis
              using returns begun Some selected idle rows single
              by (auto simp: addHostToAccessPoint_try_def action_defs Let_def split: if_splits)
          next
            case checked: False
            have "Suc (Suc (issued c)) \<notin> set (faults c) \<and> Suc (Suc (Suc (issued c))) \<notin> set (faults c)
                  \<and> committed c' = (committed c)\<lparr>BackboneAccessPoints :=
                       map (\<lambda>x. if ap_id x = a
                                  then x\<lparr>ap_hostname := hostname, ap_port := port,
                                         ap_lifecycle := Some ''new''\<rparr>
                                  else x)
                         (BackboneAccessPoints (committed c))\<rparr>"
              using returns begun Some selected idle rows single checked
              by (auto simp: addHostToAccessPoint_try_def action_defs update_access_point_def Let_def
                       split: if_splits)
            then show ?thesis
              using Some single checked by (simp add: rows_def)
          qed
        qed
      qed
    qed
  qed
qed

text \<open>The function on an idle client with no query failing.\<close>

lemma addHostToAccessPoint_accepts:
  assumes "txn c = None" and "faults c = []"
    and "access_column_of_key key = Some ref"
    and "access_rows ref bsid (committed c) = [(a, ap)]"
    and "\<not> truthy (ap_hostname ap)" and "ap_lifecycle ap = Some ''partial''"
  shows "fst (addHostToAccessPoint bsid key hostname port c) = Inr 1"
  using assms
  by (simp add: addHostToAccessPoint_def addHostToAccessPoint_try_def action_defs
        access_rows_def select_access_def update_access_point_def Let_def)

lemma addHostToAccessPoint_refuses:
  assumes idle: "txn c = None" and sound: "faults c = []"
    and refused: "access_column_of_key key = None
         \<or> (\<exists>ref. access_column_of_key key = Some ref
               \<and> (length (access_rows ref bsid (committed c)) \<noteq> 1
                   \<or> (\<exists>a ap. access_rows ref bsid (committed c) = [(a, ap)]
                         \<and> (truthy (ap_hostname ap) \<or> ap_lifecycle ap \<noteq> Some ''partial''))))"
  shows "fst (addHostToAccessPoint bsid key hostname port c) = Inr 0"
proof -
  obtain r c' where run: "addHostToAccessPoint_try bsid key hostname port (ClientFromPool c) = (r, c')"
    by (cases "addHostToAccessPoint_try bsid key hostname port (ClientFromPool c)")
  have pooled: "txn (ClientFromPool c) = None" "committed (ClientFromPool c) = committed c"
    "faults (ClientFromPool c) = []"
    using idle sound by (simp_all add: ClientFromPool_def)
  show ?thesis
  proof (cases r)
    case (Inr u)
    from addHostToAccessPoint_try_returns [OF pooled(1) run [unfolded Inr]]
    show ?thesis
      using refused by (auto simp: pooled)
  next
    case (Inl e)
    have "faults c' = []"
      by (rule ensures_thrown [OF addHostToAccessPoint_try_keeps_faults _ run [unfolded Inl]])
         (simp add: pooled)
    then show ?thesis
      using run Inl
      by (simp add: addHostToAccessPoint_def client_transaction_def Let_def)
  qed
qed

text \<open>
  The function returns only with its transaction closed: 1 after its \<open>COMMIT\<close> returned,
  0 after the \<open>ROLLBACK\<close> of the \<open>catch\<close> block returned.
\<close>

lemma addHostToAccessPoint_try_closes:
  "ensures (\<lambda>_. True) (addHostToAccessPoint_try bsid key hostname port)
     (\<lambda>_ c. txn c = None) (\<lambda>_. True)"
proof (rule addHostToAccessPoint_try_ensures [where I = "\<lambda>_. True"])
  show "ensures (\<lambda>_. True) (client_transaction COMMIT) (\<lambda>_ c. txn c = None) (\<lambda>_. True)"
    by (rule ensuresI) (auto simp: client_transaction_def Let_def split: if_splits)
qed (simp_all add: ensures_def split: prod.splits sum.splits)

lemma addHostToAccessPoint_returns_closed:
  assumes "fst (addHostToAccessPoint bsid key hostname port c) = Inr n"
  shows "txn (snd (addHostToAccessPoint bsid key hostname port c)) = None"
proof -
  obtain r c' where run: "addHostToAccessPoint_try bsid key hostname port (ClientFromPool c) = (r, c')"
    by (cases "addHostToAccessPoint_try bsid key hostname port (ClientFromPool c)")
  show ?thesis
  proof (cases r)
    case (Inr u)
    have "txn c' = None"
      by (rule ensures_returned [OF addHostToAccessPoint_try_closes _ run [unfolded Inr]]) simp
    then show ?thesis
      using run Inr by (simp add: addHostToAccessPoint_def release_def)
  next
    case (Inl e)
    obtain r' c'' where undone: "client_transaction ROLLBACK c' = (r', c'')"
      by (cases "client_transaction ROLLBACK c'")
    show ?thesis
    proof (cases r')
      case (Inr u)
      from ROLLBACK_closes [OF undone [unfolded Inr]] show ?thesis
        using run Inl undone Inr by (simp add: addHostToAccessPoint_def release_def)
    next
      case failed: (Inl e')
      then show ?thesis
        using assms run Inl undone by (simp add: addHostToAccessPoint_def)
    qed
  qed
qed

lemma access_rows_member:
  "(a, ap) \<in> set (access_rows ref bsid d) \<Longrightarrow> a = ap_id ap \<and> ap \<in> set (BackboneAccessPoints d)"
  by (auto simp: access_rows_eq)

lemma addHostToAccessPoint_returned_1:
  assumes "fst (addHostToAccessPoint bsid key hostname port c) = Inr 1"
  shows "\<exists>u c'. addHostToAccessPoint_try bsid key hostname port (ClientFromPool c) = (Inr u, c')
                \<and> snd (addHostToAccessPoint bsid key hostname port c) = release c'"
proof -
  obtain r c' where run: "addHostToAccessPoint_try bsid key hostname port (ClientFromPool c) = (r, c')"
    by (cases "addHostToAccessPoint_try bsid key hostname port (ClientFromPool c)")
  show ?thesis
    using assms run
    by (cases r; cases "client_transaction ROLLBACK c'")
       (auto simp: addHostToAccessPoint_def split: sum.splits)
qed

text \<open>
  C9: on an idle client. Whenever the key is not one of \<open>'skx-manage'\<close>, \<open>'skx-member'\<close>,
  \<open>'skx-peer'\<close>, or the site's reference does not lead to exactly one access point row
  (not found), or that access point has a hostname (\<open>access.hostname\<close> is truthy: not
  \<open>NULL\<close> and not empty), or its lifecycle is not \<open>'partial'\<close>, the function does not
  return 1 and leaves the committed rows unchanged, whichever queries fail; when it
  returns 0 its transaction has been rolled back (none is open on the released
  client); and with no query failing it does return 0, rolled back. It returns 1 only
  when all these checks pass, and then the committed rows are those before with
  \<open>Hostname\<close> and \<open>Port\<close> of the referenced access point set to the given values and its
  \<open>Lifecycle\<close> set to \<open>'new'\<close>, and no transaction is left open. With the checks passed
  and no query failing it does return 1. The client is released in every case.
\<close>

theorem addHostToAccessPoint_checks_then_updates:
  fixes c :: "'iv conn"
  assumes idle: "txn c = None"
  shows
    "(key \<notin> {''skx-manage'', ''skx-member'', ''skx-peer''}
        \<or> (\<exists>ref. access_column_of_key key = Some ref
              \<and> (length (access_rows ref bsid (committed c)) \<noteq> 1
                  \<or> (\<exists>a ap. access_rows ref bsid (committed c) = [(a, ap)]
                        \<and> (truthy (ap_hostname ap) \<or> ap_lifecycle ap \<noteq> Some ''partial''))))
      \<longrightarrow> fst (addHostToAccessPoint bsid key hostname port c) \<noteq> Inr 1
          \<and> committed (snd (addHostToAccessPoint bsid key hostname port c)) = committed c
          \<and> (fst (addHostToAccessPoint bsid key hostname port c) = Inr 0 \<longrightarrow>
                txn (snd (addHostToAccessPoint bsid key hostname port c)) = None)
          \<and> (faults c = [] \<longrightarrow>
                fst (addHostToAccessPoint bsid key hostname port c) = Inr 0
                \<and> txn (snd (addHostToAccessPoint bsid key hostname port c)) = None))
     \<and> (fst (addHostToAccessPoint bsid key hostname port c) = Inr 1
      \<longrightarrow> (\<exists>ref a ap.
             key \<in> {''skx-manage'', ''skx-member'', ''skx-peer''}
             \<and> access_column_of_key key = Some ref
             \<and> access_rows ref bsid (committed c) = [(a, ap)]
             \<and> \<not> truthy (ap_hostname ap)
             \<and> ap_lifecycle ap = Some ''partial''
             \<and> committed (snd (addHostToAccessPoint bsid key hostname port c))
                 = (committed c)\<lparr>BackboneAccessPoints :=
                     map (\<lambda>x. if ap_id x = a
                                then x\<lparr>ap_hostname := hostname, ap_port := port,
                                       ap_lifecycle := Some ''new''\<rparr>
                                else x)
                       (BackboneAccessPoints (committed c))\<rparr>
             \<and> ap\<lparr>ap_hostname := hostname, ap_port := port, ap_lifecycle := Some ''new''\<rparr>
                 \<in> set (BackboneAccessPoints
                          (committed (snd (addHostToAccessPoint bsid key hostname port c))))
             \<and> txn (snd (addHostToAccessPoint bsid key hostname port c)) = None))
     \<and> (faults c = []
          \<and> (\<exists>ref a ap. access_column_of_key key = Some ref
                \<and> access_rows ref bsid (committed c) = [(a, ap)]
                \<and> \<not> truthy (ap_hostname ap) \<and> ap_lifecycle ap = Some ''partial'')
      \<longrightarrow> fst (addHostToAccessPoint bsid key hostname port c) = Inr 1)
     \<and> leased (snd (addHostToAccessPoint bsid key hostname port c)) = False"
proof -
  have pooled: "txn (ClientFromPool c) = None" "committed (ClientFromPool c) = committed c"
    using idle by (simp_all add: ClientFromPool_def)
  have accepted: "\<exists>ref a ap.
             key \<in> {''skx-manage'', ''skx-member'', ''skx-peer''}
             \<and> access_column_of_key key = Some ref
             \<and> access_rows ref bsid (committed c) = [(a, ap)]
             \<and> \<not> truthy (ap_hostname ap)
             \<and> ap_lifecycle ap = Some ''partial''
             \<and> committed (snd (addHostToAccessPoint bsid key hostname port c))
                 = (committed c)\<lparr>BackboneAccessPoints :=
                     map (\<lambda>x. if ap_id x = a
                                then x\<lparr>ap_hostname := hostname, ap_port := port,
                                       ap_lifecycle := Some ''new''\<rparr>
                                else x)
                       (BackboneAccessPoints (committed c))\<rparr>
             \<and> ap\<lparr>ap_hostname := hostname, ap_port := port, ap_lifecycle := Some ''new''\<rparr>
                 \<in> set (BackboneAccessPoints
                          (committed (snd (addHostToAccessPoint bsid key hostname port c))))
             \<and> txn (snd (addHostToAccessPoint bsid key hostname port c)) = None"
    if one: "fst (addHostToAccessPoint bsid key hostname port c) = Inr 1"
  proof -
    from addHostToAccessPoint_returned_1 [OF one]
    obtain u c' where run: "addHostToAccessPoint_try bsid key hostname port (ClientFromPool c) = (Inr u, c')"
      and after: "snd (addHostToAccessPoint bsid key hostname port c) = release c'"
      by blast
    from addHostToAccessPoint_try_returns [OF pooled(1) run]
    obtain ref a ap where key: "access_column_of_key key = Some ref"
      and rows: "access_rows ref bsid (committed c) = [(a, ap)]"
      and checks: "\<not> truthy (ap_hostname ap)" "ap_lifecycle ap = Some ''partial''"
      and updated: "committed c' = (committed c)\<lparr>BackboneAccessPoints :=
           map (\<lambda>x. if ap_id x = a
                      then x\<lparr>ap_hostname := hostname, ap_port := port, ap_lifecycle := Some ''new''\<rparr>
                      else x)
             (BackboneAccessPoints (committed c))\<rparr>"
      by (auto simp: pooled)
    have "(a, ap) \<in> set (access_rows ref bsid (committed c))"
      by (simp add: rows)
    from access_rows_member [OF this]
    have "a = ap_id ap" and "ap \<in> set (BackboneAccessPoints (committed c))"
      by simp_all
    then have "ap\<lparr>ap_hostname := hostname, ap_port := port, ap_lifecycle := Some ''new''\<rparr>
          \<in> (\<lambda>x. if ap_id x = a
                    then x\<lparr>ap_hostname := hostname, ap_port := port, ap_lifecycle := Some ''new''\<rparr>
                    else x) ` set (BackboneAccessPoints (committed c))"
      by (intro rev_image_eqI [where x = ap]) simp_all
    moreover have "key \<in> {''skx-manage'', ''skx-member'', ''skx-peer''}"
      using key access_column_of_key_None [of key] by auto
    ultimately show ?thesis
      using key rows checks updated after addHostToAccessPoint_returns_closed [OF one]
      by (auto simp: release_def)
  qed
  have refused: "fst (addHostToAccessPoint bsid key hostname port c) \<noteq> Inr 1
          \<and> committed (snd (addHostToAccessPoint bsid key hostname port c)) = committed c
          \<and> (fst (addHostToAccessPoint bsid key hostname port c) = Inr 0 \<longrightarrow>
                txn (snd (addHostToAccessPoint bsid key hostname port c)) = None)
          \<and> (faults c = [] \<longrightarrow>
                fst (addHostToAccessPoint bsid key hostname port c) = Inr 0
                \<and> txn (snd (addHostToAccessPoint bsid key hostname port c)) = None)"
    if no: "key \<notin> {''skx-manage'', ''skx-member'', ''skx-peer''}
        \<or> (\<exists>ref. access_column_of_key key = Some ref
              \<and> (length (access_rows ref bsid (committed c)) \<noteq> 1
                  \<or> (\<exists>a ap. access_rows ref bsid (committed c) = [(a, ap)]
                        \<and> (truthy (ap_hostname ap) \<or> ap_lifecycle ap \<noteq> Some ''partial''))))"
  proof -
    have not_one: "fst (addHostToAccessPoint bsid key hostname port c) \<noteq> Inr 1"
    proof
      assume "fst (addHostToAccessPoint bsid key hostname port c) = Inr 1"
      from accepted [OF this] show False
        using no by auto
    qed
    have "access_column_of_key key = None
         \<or> (\<exists>ref. access_column_of_key key = Some ref
               \<and> (length (access_rows ref bsid (committed c)) \<noteq> 1
                   \<or> (\<exists>a ap. access_rows ref bsid (committed c) = [(a, ap)]
                         \<and> (truthy (ap_hostname ap) \<or> ap_lifecycle ap \<noteq> Some ''partial''))))"
      using no by (simp only: access_column_of_key_None)
    then have "faults c = [] \<longrightarrow> fst (addHostToAccessPoint bsid key hostname port c) = Inr 0"
      using addHostToAccessPoint_refuses [OF idle] by blast
    moreover have "fst (addHostToAccessPoint bsid key hostname port c) = Inr 0 \<longrightarrow>
                txn (snd (addHostToAccessPoint bsid key hostname port c)) = None"
      using addHostToAccessPoint_returns_closed [of bsid key hostname port c 0] by blast
    ultimately show ?thesis
      using not_one addHostToAccessPoint_rolls_back [OF not_one] by simp
  qed
  have passes: "fst (addHostToAccessPoint bsid key hostname port c) = Inr 1"
    if "faults c = []
          \<and> (\<exists>ref a ap. access_column_of_key key = Some ref
                \<and> access_rows ref bsid (committed c) = [(a, ap)]
                \<and> \<not> truthy (ap_hostname ap) \<and> ap_lifecycle ap = Some ''partial'')"
    using that addHostToAccessPoint_accepts [OF idle] by blast
  show ?thesis
    using accepted refused passes addHostToAccessPoint_releases [of bsid key hostname port c]
    by blast
qed

theorem addHostToAccessPoint_checks_then_updates_witness:
  "fst (addHostToAccessPoint ''site-1'' ''skx-ingress'' (Some ''h.example.com'') (Some ''443'')
          (idle_client backbone_store)) = Inr 0
   \<and> fst (addHostToAccessPoint ''site-1'' ''skx-peer'' (Some ''h.example.com'') (Some ''443'')
          (idle_client backbone_store)) = Inr 0
   \<and> committed (snd (addHostToAccessPoint ''site-1'' ''skx-peer'' (Some ''h.example.com'') (Some ''443'')
          (idle_client backbone_store))) = backbone_store
   \<and> txn (snd (addHostToAccessPoint ''site-1'' ''skx-peer'' (Some ''h.example.com'') (Some ''443'')
          (idle_client backbone_store))) = None
   \<and> fst (addHostToAccessPoint ''site-1'' ''skx-manage'' (Some ''h.example.com'') (Some ''443'')
          (idle_client backbone_store)) = Inr 1
   \<and> \<lparr> ap_id = ''ap-manage'', ap_hostname = Some ''h.example.com'', ap_port = Some ''443'',
        ap_lifecycle = Some ''new'' \<rparr>
       \<in> set (BackboneAccessPoints (committed (snd
            (addHostToAccessPoint ''site-1'' ''skx-manage'' (Some ''h.example.com'') (Some ''443'')
               (idle_client backbone_store)))))"
proof -
  have idle: "txn (idle_client backbone_store) = None"
    and sound: "faults (idle_client backbone_store) = []"
    and rows: "committed (idle_client backbone_store) = backbone_store"
    by (simp_all add: idle_client_def)
  have bad_key: "''skx-ingress'' \<notin> {''skx-manage'', ''skx-member'', ''skx-peer''}"
    by simp
  have peer: "access_column_of_key ''skx-peer'' = Some PeerAccess"
    and manage: "access_column_of_key ''skx-manage'' = Some ManagementAccess"
    by (simp_all add: access_column_of_key_def)
  have peer_rows: "access_rows PeerAccess ''site-1'' backbone_store
      = [(''ap-peer'', \<lparr> ap_id = ''ap-peer'', ap_hostname = Some ''peer.example.com'',
                          ap_port = Some ''55671'', ap_lifecycle = Some ''ready'' \<rparr>)]"
    and manage_rows: "access_rows ManagementAccess ''site-1'' backbone_store
      = [(''ap-manage'', \<lparr> ap_id = ''ap-manage'', ap_hostname = None, ap_port = None,
                            ap_lifecycle = Some ''partial'' \<rparr>)]"
    by (simp_all add: access_rows_eq backbone_store_def)
  note refuses = addHostToAccessPoint_checks_then_updates [OF idle, THEN conjunct1]
  note returns_1 = addHostToAccessPoint_checks_then_updates [OF idle, THEN conjunct2, THEN conjunct1]
  note accepts = addHostToAccessPoint_checks_then_updates
                   [OF idle, THEN conjunct2, THEN conjunct2, THEN conjunct1]
  have "fst (addHostToAccessPoint ''site-1'' ''skx-ingress'' (Some ''h.example.com'') (Some ''443'')
          (idle_client backbone_store)) = Inr 0"
    using refuses [of "''skx-ingress''" "''site-1''" "Some ''h.example.com''" "Some ''443''"]
      bad_key sound
    by simp
  moreover have "fst (addHostToAccessPoint ''site-1'' ''skx-peer'' (Some ''h.example.com'') (Some ''443'')
          (idle_client backbone_store)) = Inr 0
     \<and> committed (snd (addHostToAccessPoint ''site-1'' ''skx-peer'' (Some ''h.example.com'') (Some ''443'')
          (idle_client backbone_store))) = backbone_store
     \<and> txn (snd (addHostToAccessPoint ''site-1'' ''skx-peer'' (Some ''h.example.com'') (Some ''443'')
          (idle_client backbone_store))) = None"
    using refuses [of "''skx-peer''" "''site-1''" "Some ''h.example.com''" "Some ''443''"]
      sound
    by (simp add: peer rows peer_rows truthy_def)
  moreover have one: "fst (addHostToAccessPoint ''site-1'' ''skx-manage'' (Some ''h.example.com'') (Some ''443'')
          (idle_client backbone_store)) = Inr 1"
    using accepts [of "''skx-manage''" "''site-1''" "Some ''h.example.com''" "Some ''443''"]
      sound
    by (simp add: manage rows manage_rows truthy_def)
  moreover have "\<lparr> ap_id = ''ap-manage'', ap_hostname = Some ''h.example.com'', ap_port = Some ''443'',
        ap_lifecycle = Some ''new'' \<rparr>
       \<in> set (BackboneAccessPoints (committed (snd
            (addHostToAccessPoint ''site-1'' ''skx-manage'' (Some ''h.example.com'') (Some ''443'')
               (idle_client backbone_store)))))"
  proof -
    from returns_1 [of "''site-1''" "''skx-manage''" "Some ''h.example.com''" "Some ''443''",
                    THEN mp, OF one]
    obtain ref a ap where "access_column_of_key ''skx-manage'' = Some ref"
      and "access_rows ref ''site-1'' (committed (idle_client backbone_store)) = [(a, ap)]"
      and updated: "ap\<lparr>ap_hostname := Some ''h.example.com'', ap_port := Some ''443'',
                      ap_lifecycle := Some ''new''\<rparr>
        \<in> set (BackboneAccessPoints (committed (snd
            (addHostToAccessPoint ''site-1'' ''skx-manage'' (Some ''h.example.com'') (Some ''443'')
               (idle_client backbone_store)))))"
      by (elim exE conjE)
    then have "ap = \<lparr> ap_id = ''ap-manage'', ap_hostname = None, ap_port = None,
                       ap_lifecycle = Some ''partial'' \<rparr>"
      by (auto simp: manage rows manage_rows)
    with updated show ?thesis
      by simp
  qed
  ultimately show ?thesis
    by simp
qed

section \<open>Claiming an invitation: admission control\<close>

lemma claim_invitation_succeeds:
  assumes "claim_invitation now claim_id invitations = Inr invitations'"
  shows "\<exists>i deadline n limit.
      find (\<lambda>i. inv_id i = claim_id) invitations = Some i
      \<and> inv_joindeadline i = Some deadline \<and> now \<le> deadline
      \<and> inv_instancecount i = Some n \<and> inv_instancelimit i = Some limit \<and> n < limit
      \<and> invitations' =
          map (\<lambda>j. if inv_id j = claim_id
                     then j\<lparr>inv_instancecount := map_option (\<lambda>n. n + 1) (inv_instancecount j)\<rparr>
                     else j) invitations"
  using assms
  by (auto simp: claim_invitation_def split: option.splits if_splits)

lemma only_row_with_key:
  assumes "distinct (map inv_id invitations)"
    and "i \<in> set invitations" and "j \<in> set invitations" and "inv_id j = inv_id i"
  shows "j = i"
  using assms by (meson distinct_map inj_on_eq_iff)

lemma claim_invitation_refused_at_limit:
  assumes "distinct (map inv_id invitations)"
    and "i \<in> set invitations" and "inv_id i = claim_id"
    and "inv_instancecount i = inv_instancelimit i
         \<or> (\<exists>deadline. inv_joindeadline i = Some deadline \<and> deadline < now)"
  shows "\<exists>e. claim_invitation now claim_id invitations = Inl e"
proof (cases "claim_invitation now claim_id invitations")
  case (Inl e)
  then show ?thesis by simp
next
  case (Inr invitations')
  from claim_invitation_succeeds [OF this]
  obtain k deadline n limit where found: "find (\<lambda>i. inv_id i = claim_id) invitations = Some k"
    and open_: "inv_joindeadline k = Some deadline" "now \<le> deadline"
    and room: "inv_instancecount k = Some n" "inv_instancelimit k = Some limit" "n < limit"
    by blast
  have "k \<in> set invitations \<and> inv_id k = claim_id"
    using found by (auto simp: find_Some_iff)
  then have "k = i"
    using only_row_with_key [OF assms(1), of i k] assms(2,3) by simp
  then show ?thesis
    using assms(4) open_ room by auto
qed

lemma claim_keeps_keys:
  "map inv_id (map (\<lambda>j. if inv_id j = claim_id then j\<lparr>inv_instancecount := g j\<rparr> else j) rows)
     = map inv_id rows"
  by (induction rows) auto

text \<open>
  C5 (on the claim operation as the spec words it; its handler is not in the sources):
  with \<open>Id\<close> a key of the table, a claim against an invitation succeeds only while
  \<open>now <= JoinDeadline\<close> and \<open>InstanceCount < InstanceLimit\<close>; a successful claim
  changes that invitation only, increments its \<open>InstanceCount\<close> by exactly 1, and the
  new count does not exceed the limit, so a table in which no invitation is over its
  limit stays so. Once the count has reached the limit by that claim, any further
  claim with the same id fails; and a claim against an invitation whose count equals
  its limit, or whose deadline is past, fails.
\<close>

theorem claim_invitation_admission_control:
  assumes keys: "distinct (map inv_id invitations)"
  shows
    "(\<forall>invitations'. claim_invitation now claim_id invitations = Inr invitations' \<longrightarrow>
        (\<exists>i deadline n limit.
            i \<in> set invitations \<and> inv_id i = claim_id
            \<and> inv_joindeadline i = Some deadline \<and> now \<le> deadline
            \<and> inv_instancecount i = Some n \<and> inv_instancelimit i = Some limit \<and> n < limit
            \<and> invitations' = map (\<lambda>j. if j = i then i\<lparr>inv_instancecount := Some (n + 1)\<rparr> else j)
                                invitations
            \<and> i\<lparr>inv_instancecount := Some (n + 1)\<rparr> \<in> set invitations'
            \<and> n + 1 \<le> limit
            \<and> (n + 1 = limit \<longrightarrow>
                  (\<forall>later. \<exists>e. claim_invitation later claim_id invitations' = Inl e)))
        \<and> ((\<forall>i \<in> set invitations. within_limit i) \<longrightarrow>
              (\<forall>i \<in> set invitations'. within_limit i)))
     \<and> (\<forall>i \<in> set invitations.
          inv_id i = claim_id
          \<and> (inv_instancecount i = inv_instancelimit i
              \<or> (\<exists>deadline. inv_joindeadline i = Some deadline \<and> deadline < now))
          \<longrightarrow> (\<exists>e. claim_invitation now claim_id invitations = Inl e))"
proof (intro conjI allI impI ballI)
  fix i assume "i \<in> set invitations"
    and "inv_id i = claim_id
          \<and> (inv_instancecount i = inv_instancelimit i
              \<or> (\<exists>deadline. inv_joindeadline i = Some deadline \<and> deadline < now))"
  then show "\<exists>e. claim_invitation now claim_id invitations = Inl e"
    using claim_invitation_refused_at_limit [OF keys] by blast
next
  fix invitations'
  assume claimed: "claim_invitation now claim_id invitations = Inr invitations'"
  from claim_invitation_succeeds [OF claimed]
  obtain i deadline n limit where found: "find (\<lambda>i. inv_id i = claim_id) invitations = Some i"
    and open_: "inv_joindeadline i = Some deadline" "now \<le> deadline"
    and room: "inv_instancecount i = Some n" "inv_instancelimit i = Some limit" "n < limit"
    and after: "invitations' =
          map (\<lambda>j. if inv_id j = claim_id
                     then j\<lparr>inv_instancecount := map_option (\<lambda>n. n + 1) (inv_instancecount j)\<rparr>
                     else j) invitations"
    by blast
  have member: "i \<in> set invitations" and key: "inv_id i = claim_id"
    using found by (auto simp: find_Some_iff)
  have only: "j = i" if "j \<in> set invitations" "inv_id j = claim_id" for j
    using only_row_with_key [OF keys member that(1)] that(2) key by simp
  have step: "(if inv_id j = claim_id
               then j\<lparr>inv_instancecount := map_option (\<lambda>n. n + 1) (inv_instancecount j)\<rparr>
               else j)
              = (if j = i then i\<lparr>inv_instancecount := Some (n + 1)\<rparr> else j)"
    if j: "j \<in> set invitations" for j
  proof (cases "inv_id j = claim_id")
    case True
    from only [OF j True] show ?thesis
      using room key by simp
  next
    case False
    then have "j \<noteq> i"
      using key by auto
    then show ?thesis
      using False by simp
  qed
  have after': "invitations' = map (\<lambda>j. if j = i then i\<lparr>inv_instancecount := Some (n + 1)\<rparr> else j)
                                invitations"
    unfolding after by (rule map_cong [OF refl step])
  have "i\<lparr>inv_instancecount := Some (n + 1)\<rparr>
          \<in> (\<lambda>j. if j = i then i\<lparr>inv_instancecount := Some (n + 1)\<rparr> else j) ` set invitations"
    using member by (rule rev_image_eqI) simp
  then have claimed_row: "i\<lparr>inv_instancecount := Some (n + 1)\<rparr> \<in> set invitations'"
    by (simp add: after')
  have "map inv_id invitations' = map inv_id invitations"
    unfolding after by (rule claim_keeps_keys)
  then have keys': "distinct (map inv_id invitations')"
    using keys by simp
  have full: "\<exists>e. claim_invitation later claim_id invitations' = Inl e" if "n + 1 = limit" for later
    using claim_invitation_refused_at_limit [OF keys' claimed_row, of claim_id later] key room that
    by simp
  show "\<exists>i deadline n limit.
            i \<in> set invitations \<and> inv_id i = claim_id
            \<and> inv_joindeadline i = Some deadline \<and> now \<le> deadline
            \<and> inv_instancecount i = Some n \<and> inv_instancelimit i = Some limit \<and> n < limit
            \<and> invitations' = map (\<lambda>j. if j = i then i\<lparr>inv_instancecount := Some (n + 1)\<rparr> else j)
                                invitations
            \<and> i\<lparr>inv_instancecount := Some (n + 1)\<rparr> \<in> set invitations'
            \<and> n + 1 \<le> limit
            \<and> (n + 1 = limit \<longrightarrow>
                  (\<forall>later. \<exists>e. claim_invitation later claim_id invitations' = Inl e))"
    using member key open_ room after' claimed_row full by (intro exI [where x = i]) auto
  fix j assume inv: "\<forall>i \<in> set invitations. within_limit i" and j: "j \<in> set invitations'"
  show "within_limit j"
  proof (cases "j = i\<lparr>inv_instancecount := Some (n + 1)\<rparr>")
    case True
    then show ?thesis
      using room by (simp add: within_limit_def)
  next
    case False
    then have "j \<in> set invitations"
      using j unfolding after' by (auto split: if_splits)
    then show ?thesis
      using inv by simp
  qed
qed

theorem claim_invitation_admission_control_witness:
  "distinct (map inv_id (MemberInvitations backbone_store))
   \<and> claim_invitation 500 ''inv-1'' (MemberInvitations backbone_store)
      = Inr [\<lparr> inv_id = ''inv-1'', inv_name = Some ''edge'', inv_lifecycle = Some ''ready'',
               inv_failure = None, inv_joindeadline = Some 1000, inv_instancelimit = Some 2,
               inv_instancecount = Some 2 \<rparr>]
   \<and> claim_invitation 501 ''inv-1''
        [\<lparr> inv_id = ''inv-1'', inv_name = Some ''edge'', inv_lifecycle = Some ''ready'',
           inv_failure = None, inv_joindeadline = Some 1000, inv_instancelimit = Some 2,
           inv_instancecount = Some 2 \<rparr>] = Inl InstanceLimitReached
   \<and> claim_invitation 1001 ''inv-1'' (MemberInvitations backbone_store) = Inl InvitationExpired"
proof -
  have keys: "distinct (map inv_id (MemberInvitations backbone_store))"
    by (simp add: backbone_store_def)
  have claimed: "claim_invitation 500 ''inv-1'' (MemberInvitations backbone_store)
      = Inr [\<lparr> inv_id = ''inv-1'', inv_name = Some ''edge'', inv_lifecycle = Some ''ready'',
               inv_failure = None, inv_joindeadline = Some 1000, inv_instancelimit = Some 2,
               inv_instancecount = Some 2 \<rparr>]"
    by (simp add: claim_invitation_def backbone_store_def)
  from claim_invitation_admission_control [OF keys, of 500 "''inv-1''"] claimed
  have "\<exists>e. claim_invitation 501 ''inv-1''
        [\<lparr> inv_id = ''inv-1'', inv_name = Some ''edge'', inv_lifecycle = Some ''ready'',
           inv_failure = None, inv_joindeadline = Some 1000, inv_instancelimit = Some 2,
           inv_instancecount = Some 2 \<rparr>] = Inl e"
    by (auto simp: backbone_store_def)
  then have "claim_invitation 501 ''inv-1''
        [\<lparr> inv_id = ''inv-1'', inv_name = Some ''edge'', inv_lifecycle = Some ''ready'',
           inv_failure = None, inv_joindeadline = Some 1000, inv_instancelimit = Some 2,
           inv_instancecount = Some 2 \<rparr>] = Inl InstanceLimitReached"
    by (simp add: claim_invitation_def)
  moreover have "claim_invitation 1001 ''inv-1'' (MemberInvitations backbone_store) = Inl InvitationExpired"
    by (simp add: claim_invitation_def backbone_store_def)
  ultimately show ?thesis
    using keys claimed by simp
qed

section \<open>Releasing the pooled client\<close>

text \<open>
  The workers and \<open>addHostToAccessPoint\<close> release the client in a \<open>finally\<close> block
  (\<open>worker_pass_releases\<close>, \<open>addHostToAccessPoint_releases\<close>). \<open>listInvitations\<close> releases
  it on its last line only: when its query returns, the client is released, and when
  its query throws, it is not.
\<close>

lemma listInvitations_releases_when_query_returns:
  "issued c \<notin> set (faults c) \<Longrightarrow>
   leased (snd (listInvitations c)) = False \<and> (\<exists>r. fst (listInvitations c) = Inr r)"
  by (simp add: listInvitations_def action_defs select_invitations_def Let_def)

lemma listInvitations_leaks_when_query_throws:
  "issued c \<in> set (faults c) \<Longrightarrow>
   leased (snd (listInvitations c)) = True \<and> fst (listInvitations c) = Inl QueryFailed"
  by (simp add: listInvitations_def action_defs Let_def)

text \<open>
  C8 fails on \<open>listInvitations\<close>: called on the idle client of \<open>backbone_store\<close> when the
  store fails its query, the function ends with the error and the client is still
  checked out of the pool.
\<close>

theorem listInvitations_keeps_client_on_error:
  "fst (listInvitations ((idle_client backbone_store)\<lparr>faults := [0]\<rparr>)) = Inl QueryFailed
   \<and> leased (snd (listInvitations ((idle_client backbone_store)\<lparr>faults := [0]\<rparr>))) = True"
  by (simp add: listInvitations_def action_defs Let_def idle_client_def)

end
